theory Spec2Isabelle
  imports Main "HOL-Library.Word"
begin

section \<open>The polling shard consumer of vmware-go-kcl-v2\<close>

text \<open>
  This theory embeds \<^verbatim>\<open>clientlibrary/worker/polling-shard-consumer.go\<close>:
  the method \<^verbatim>\<open>getShardIterator\<close> and the poll loop \<^verbatim>\<open>getRecords\<close>.

  Everything the method calls outside its own file (the lease store, the Kinesis client, the
  record processor, the clock, the stop channel) is an external collaborator. Its answers are
  inputs of the model, and each call is written to a trace of events, in program order. Log
  statements have no effect on the control flow and are left out. A collaborator that
  panics or never returns is outside the model: every call of a collaborator returns.
\<close>

subsection \<open>Machine integers, durations and instants\<close>

text \<open>
  Go's \<^verbatim>\<open>int\<close> is a signed 64-bit integer on the 64-bit platforms the library is built
  for, and \<^verbatim>\<open>time.Duration\<close> is an \<^verbatim>\<open>int64\<close> count of nanoseconds. Both are
  64-bit words here: \<open>+\<close>, \<open>-\<close> and \<open>*\<close> wrap around, comparisons are the signed
  ones, and \<open>sint\<close> reads the value. An instant (\<^verbatim>\<open>time.Time\<close>) is a number of
  nanoseconds on an unbounded axis whose origin is the zero \<^verbatim>\<open>time.Time\<close>.
\<close>

type_synonym go_int = "64 word"
type_synonym Duration = "64 word"
type_synonym Time = int

definition Millisecond :: Duration where
  "Millisecond = 1000000"

definition Second :: Duration where
  "Second = 1000000000"

definition MaxReadTransactionsPerSecond :: go_int where
  "MaxReadTransactionsPerSecond = 5"

text \<open>\<^verbatim>\<open>t.Add(d)\<close> and \<^verbatim>\<open>t.After(u)\<close>.\<close>

definition time_Add :: "Time \<Rightarrow> Duration \<Rightarrow> Time" where
  "time_Add t d = t + sint d"

definition time_After :: "Time \<Rightarrow> Time \<Rightarrow> bool" where
  "time_After t u = (u < t)"

text \<open>
  \<^verbatim>\<open>t.Sub(u)\<close>: the difference as a duration; the library documents that a difference
  outside the range of a duration gives the maximum or the minimum duration.
  \<^verbatim>\<open>time.Since(u)\<close> is \<^verbatim>\<open>time.Now().Sub(u)\<close>; the clock reading is the first
  argument of \<open>time_Since\<close>.
\<close>

definition time_Sub :: "Time \<Rightarrow> Time \<Rightarrow> Duration" where
  "time_Sub t u =
     (if 9223372036854775807 < t - u then word_of_int 9223372036854775807
      else if t - u < - 9223372036854775808 then word_of_int (- 9223372036854775808)
      else word_of_int (t - u))"

definition time_Since :: "Time \<Rightarrow> Time \<Rightarrow> Duration" where
  "time_Since now u = time_Sub now u"

subsection \<open>Errors\<close>

text \<open>
  The error values the method tells apart. \<open>Wrapped\<close> is an error that wraps another one
  (\<^verbatim>\<open>fmt.Errorf("...%w", err)\<close>): \<^verbatim>\<open>errors.As\<close> looks through the chain, the
  comparison \<^verbatim>\<open>err != chk.ErrSequenceIDNotFound\<close> does not.
\<close>

datatype error =
    ErrSequenceIDNotFound
  | ErrLeaseNotAcquired string
  | ProvisionedThroughputExceededException string
  | KMSThrottlingException string
  | OtherError string
  | Wrapped string error

text \<open>\<^verbatim>\<open>errors.As(err, &chk.ErrLeaseNotAcquired{})\<close>\<close>

fun as_ErrLeaseNotAcquired :: "error \<Rightarrow> bool" where
  "as_ErrLeaseNotAcquired (ErrLeaseNotAcquired m) = True"
| "as_ErrLeaseNotAcquired (Wrapped m e) = as_ErrLeaseNotAcquired e"
| "as_ErrLeaseNotAcquired e = False"

text \<open>\<^verbatim>\<open>errors.As(err, &throughputExceededErr)\<close>\<close>

fun as_ProvisionedThroughputExceeded :: "error \<Rightarrow> bool" where
  "as_ProvisionedThroughputExceeded (ProvisionedThroughputExceededException m) = True"
| "as_ProvisionedThroughputExceeded (Wrapped m e) = as_ProvisionedThroughputExceeded e"
| "as_ProvisionedThroughputExceeded e = False"

text \<open>\<^verbatim>\<open>errors.As(err, &kmsThrottlingErr)\<close>\<close>

fun as_KMSThrottling :: "error \<Rightarrow> bool" where
  "as_KMSThrottling (KMSThrottlingException m) = True"
| "as_KMSThrottling (Wrapped m e) = as_KMSThrottling e"
| "as_KMSThrottling e = False"

subsection \<open>Configuration, requests and responses\<close>

text \<open>
  The fields of \<^verbatim>\<open>sc.kclConfig\<close> that the method reads. Their declaration is in
  another package; the method uses each of them as a Go \<^verbatim>\<open>int\<close>.
\<close>

record kclConfig =
  MaxRecords :: go_int
  MaxRetryCount :: go_int
  IdleTimeBetweenReadsInMillis :: go_int
  LeaseRefreshPeriodMillis :: go_int

record PollingShardConsumer =
  shardID :: string
  streamName :: string
  consumerID :: string
  kclConfig :: kclConfig

datatype ShardIteratorType =
  AT_SEQUENCE_NUMBER | AFTER_SEQUENCE_NUMBER | TRIM_HORIZON | LATEST | AT_TIMESTAMP

record StartingPosition =
  pos_Type :: ShardIteratorType
  pos_SequenceNumber :: "string option"
  pos_Timestamp :: "Time option"

record GetShardIteratorInput =
  in_ShardId :: string
  in_ShardIteratorType :: ShardIteratorType
  in_StartingSequenceNumber :: "string option"
  in_Timestamp :: "Time option"
  in_StreamName :: string

record GetRecordsInput =
  Limit :: "32 word"
  ShardIterator :: "string option"

record Record =
  Data :: string
  PartitionKey :: string
  SequenceNumber :: string

record GetRecordsOutput =
  Records :: "Record list"
  MillisBehindLatest :: "64 word option"
  NextShardIterator :: "string option"

text \<open>\<^verbatim>\<open>aws.ToInt64\<close>: the value behind the pointer, 0 for nil.\<close>

definition ToInt64 :: "64 word option \<Rightarrow> 64 word" where
  "ToInt64 p = (case p of None \<Rightarrow> 0 | Some v \<Rightarrow> v)"

text \<open>\<^verbatim>\<open>int32(n)\<close> keeps the low 32 bits.\<close>

definition int32 :: "go_int \<Rightarrow> 32 word" where
  "int32 n = ucast n"

subsection \<open>Events\<close>

datatype ShutdownReason = REQUESTED | TERMINATE

text \<open>The four places where the method calls \<^verbatim>\<open>time.Sleep\<close>.\<close>

datatype sleep_site =
    RateLimit   \<comment> \<open>line 148, before a fetch\<close>
  | Cooldown    \<comment> \<open>line 175, after a provisioned-throughput-exceeded error\<close>
  | Backoff     \<comment> \<open>line 192, after a KMS throttling error\<close>
  | Idle        \<comment> \<open>line 223, after an empty batch\<close>

datatype event =
    WaitOnParentShard                         \<comment> \<open>\<^verbatim>\<open>sc.waitOnParentShard()\<close>\<close>
  | GetStartingPosition                       \<comment> \<open>\<^verbatim>\<open>sc.getStartingPosition()\<close>\<close>
  | GetShardIterator GetShardIteratorInput    \<comment> \<open>\<^verbatim>\<open>sc.kc.GetShardIterator\<close>\<close>
  | Initialize string string                  \<comment> \<open>\<^verbatim>\<open>sc.recordProcessor.Initialize\<close>: shard, checkpoint\<close>
  | GetLease string string                    \<comment> \<open>\<^verbatim>\<open>sc.checkpointer.GetLease\<close>: shard, worker\<close>
  | LeaseRenewed string                       \<comment> \<open>\<^verbatim>\<open>sc.mService.LeaseRenewed\<close>\<close>
  | Sleep sleep_site Duration                 \<comment> \<open>\<^verbatim>\<open>time.Sleep\<close>\<close>
  | GetRecords GetRecordsInput                \<comment> \<open>\<^verbatim>\<open>sc.kc.GetRecords\<close>\<close>
  | ProcessRecords Time "Record list" "64 word option"  \<comment> \<open>\<^verbatim>\<open>sc.processRecords\<close>\<close>
  | Shutdown ShutdownReason                   \<comment> \<open>\<^verbatim>\<open>sc.recordProcessor.Shutdown\<close>\<close>
  | PollStop                                  \<comment> \<open>the non-blocking receive on \<^verbatim>\<open>*sc.stop\<close>\<close>
  | ReleaseLease string                       \<comment> \<open>\<^verbatim>\<open>sc.releaseLease\<close>\<close>

subsection \<open>The environment\<close>

text \<open>
  What the collaborators answer during one pass through the body of the loop, in the order
  in which the body asks. A value that the pass does not ask for is ignored.
\<close>

record cycle =
  nowUTC :: Time                        \<comment> \<open>line 118, \<^verbatim>\<open>time.Now().UTC()\<close>\<close>
  leaseTimeout :: Time                  \<comment> \<open>line 118, \<^verbatim>\<open>sc.shard.GetLeaseTimeout()\<close>\<close>
  getLeaseResult :: "error option"      \<comment> \<open>line 120\<close>
  getRecordsStartTime :: Time           \<comment> \<open>line 135\<close>
  nowRateLimit :: Time                  \<comment> \<open>line 146, the clock read by \<^verbatim>\<open>time.Since\<close>\<close>
  getRecordsResult :: "error + GetRecordsOutput"  \<comment> \<open>line 155\<close>
  getRecordsTransactionTime :: Time     \<comment> \<open>line 156\<close>
  nowAfterError :: Time                 \<comment> \<open>line 173, the clock read by \<^verbatim>\<open>time.Since\<close>\<close>
  stopSignalled :: bool                 \<comment> \<open>line 227, whether the receive succeeds\<close>

text \<open>The answers for a whole call of \<^verbatim>\<open>getRecords\<close>.\<close>

record environment =
  waitOnParentShardResult :: "error option"
  getStartingPositionResult :: "error + StartingPosition"
  getShardIteratorResult :: "error + string option"
  checkpoint :: string
  cycles :: "cycle list"

subsection \<open>\<^verbatim>\<open>getShardIterator\<close>\<close>

definition getShardIterator ::
  "PollingShardConsumer \<Rightarrow> environment \<Rightarrow> event list \<times> (error + string option)" where
  "getShardIterator sc env =
     (case getStartingPositionResult env of
        Inl err \<Rightarrow> ([GetStartingPosition], Inl err)
      | Inr startPosition \<Rightarrow>
          (let shardIterArgs = \<lparr> in_ShardId = shardID sc,
                                 in_ShardIteratorType = pos_Type startPosition,
                                 in_StartingSequenceNumber = pos_SequenceNumber startPosition,
                                 in_Timestamp = pos_Timestamp startPosition,
                                 in_StreamName = streamName sc \<rparr>
           in (case getShardIteratorResult env of
                 Inl err \<Rightarrow> ([GetStartingPosition, GetShardIterator shardIterArgs], Inl err)
               | Inr it \<Rightarrow> ([GetStartingPosition, GetShardIterator shardIterArgs], Inr it))))"

subsection \<open>The body of the loop\<close>

record loopState =
  shardIterator :: "string option"
  retriedErrors :: go_int
  transactionNum :: go_int
  firstTransactionTime :: Time

text \<open>A pass through the body ends in the next pass or in a \<^verbatim>\<open>return\<close>.\<close>

datatype outcome = Continue loopState | Return "error option"

text \<open>Lines 118 to 133: the lease is renewed when it is about to expire.\<close>

definition renewalDue :: "PollingShardConsumer \<Rightarrow> cycle \<Rightarrow> bool" where
  "renewalDue sc c =
     time_After (nowUTC c)
       (time_Add (leaseTimeout c) (- (LeaseRefreshPeriodMillis (kclConfig sc)) * Millisecond))"

definition refreshLease :: "PollingShardConsumer \<Rightarrow> cycle \<Rightarrow> event list \<times> error option option" where
  "refreshLease sc c =
     (if renewalDue sc c then
        (case getLeaseResult c of
           Some err \<Rightarrow>
             (if as_ErrLeaseNotAcquired err
              then ([GetLease (shardID sc) (consumerID sc)], Some None)
              else ([GetLease (shardID sc) (consumerID sc)], Some (Some err)))
         | None \<Rightarrow> ([GetLease (shardID sc) (consumerID sc), LeaseRenewed (shardID sc)], None))
      else ([], None))"

text \<open>Lines 143 to 150: at most five read transactions per second.\<close>

definition rateLimit :: "loopState \<Rightarrow> cycle \<Rightarrow> event list \<times> loopState" where
  "rateLimit st c =
     (if MaxReadTransactionsPerSecond <s transactionNum st then
        (let timeDiff = time_Since (nowRateLimit c) (firstTransactionTime st)
         in (if timeDiff <s Second then [Sleep RateLimit timeDiff] else [],
             st\<lparr>transactionNum := 0\<rparr>))
      else ([], st))"

text \<open>
  Line 192: \<^verbatim>\<open>time.Duration(math.Exp2(float64(retriedErrors))*100) * time.Millisecond\<close>.
  For \<open>n\<close> up to 56 the float \<open>2^n * 100\<close> is exact and fits an \<^verbatim>\<open>int64\<close>; for a
  negative \<open>n\<close> the conversion truncates \<open>100 / 2^(-n)\<close>. From 57 on the float is outside
  the range of \<^verbatim>\<open>int64\<close> and Go leaves the result of the conversion to the
  implementation (the minimum \<^verbatim>\<open>int64\<close> on amd64, the maximum on arm64): it is the
  parameter \<open>conv\<close>. The product with \<^verbatim>\<open>time.Millisecond\<close> wraps around.
\<close>

definition exp2_times_100 :: "Duration \<Rightarrow> go_int \<Rightarrow> Duration" where
  "exp2_times_100 conv n =
     (if sint n < 0 then word_of_int (100 div 2 ^ nat (- sint n))
      else if sint n \<le> 56 then word_of_int (2 ^ nat (sint n) * 100)
      else conv)"

definition kmsBackoff :: "Duration \<Rightarrow> go_int \<Rightarrow> Duration" where
  "kmsBackoff conv n = exp2_times_100 conv n * Millisecond"

text \<open>Lines 157 to 197: the fetch failed with \<open>err\<close>.\<close>

definition fetchFailed ::
  "Duration \<Rightarrow> PollingShardConsumer \<Rightarrow> loopState \<Rightarrow> cycle \<Rightarrow> error \<Rightarrow> event list \<times> outcome" where
  "fetchFailed conv sc st c err =
     (if as_ProvisionedThroughputExceeded err then
        (let st1 = st\<lparr>retriedErrors := retriedErrors st + 1\<rparr>
         in if MaxRetryCount (kclConfig sc) <s retriedErrors st1 then ([], Return (Some err))
            else
              (let waitTime = time_Since (nowAfterError c) (getRecordsTransactionTime c)
               in (if waitTime <s Second then [Sleep Cooldown (Second - waitTime)] else [],
                   Continue st1)))
      else if as_KMSThrottling err then
        (let st1 = st\<lparr>retriedErrors := retriedErrors st + 1\<rparr>
         in if MaxRetryCount (kclConfig sc) <s retriedErrors st1 then ([], Return (Some err))
            else ([Sleep Backoff (kmsBackoff conv (retriedErrors st1))], Continue st1))
      else ([], Return (Some err)))"

text \<open>Lines 199 to 232: the fetch returned \<open>getResp\<close>.\<close>

definition idlePacing :: "PollingShardConsumer \<Rightarrow> GetRecordsOutput \<Rightarrow> event list" where
  "idlePacing sc getResp =
     (if length (Records getResp) = 0
         \<and> ToInt64 (MillisBehindLatest getResp) <s IdleTimeBetweenReadsInMillis (kclConfig sc)
      then [Sleep Idle (IdleTimeBetweenReadsInMillis (kclConfig sc) * Millisecond)]
      else [])"

definition fetchSucceeded ::
  "PollingShardConsumer \<Rightarrow> loopState \<Rightarrow> cycle \<Rightarrow> GetRecordsOutput \<Rightarrow> event list \<times> outcome" where
  "fetchSucceeded sc st c getResp =
     (let st1 = st\<lparr>retriedErrors := 0, transactionNum := transactionNum st + 1\<rparr>;
          st2 = (if transactionNum st1 = 1
                 then st1\<lparr>firstTransactionTime := getRecordsTransactionTime c\<rparr> else st1);
          delivered = [ProcessRecords (getRecordsStartTime c) (Records getResp)
                         (MillisBehindLatest getResp)]
      in if NextShardIterator getResp = None then (delivered @ [Shutdown TERMINATE], Return None)
         else
           (let st3 = st2\<lparr>shardIterator := NextShardIterator getResp\<rparr>
            in if stopSignalled c
               then (delivered @ idlePacing sc getResp @ [PollStop, Shutdown REQUESTED], Return None)
               else (delivered @ idlePacing sc getResp @ [PollStop], Continue st3)))"

text \<open>One pass through the body, lines 118 to 232.\<close>

definition iteration ::
  "Duration \<Rightarrow> PollingShardConsumer \<Rightarrow> loopState \<Rightarrow> cycle \<Rightarrow> event list \<times> outcome" where
  "iteration conv sc st c =
     (case refreshLease sc c of
        (renewal, Some r) \<Rightarrow> (renewal, Return r)
      | (renewal, None) \<Rightarrow>
          (let getRecordsArgs = \<lparr> Limit = int32 (MaxRecords (kclConfig sc)),
                                  ShardIterator = shardIterator st \<rparr>;
               (limiter, st1) = rateLimit st c;
               (rest, out) = (case getRecordsResult c of
                                Inl err \<Rightarrow> fetchFailed conv sc st1 c err
                              | Inr getResp \<Rightarrow> fetchSucceeded sc st1 c getResp)
           in (renewal @ limiter @ [GetRecords getRecordsArgs] @ rest, out)))"

subsection \<open>The loop and \<^verbatim>\<open>getRecords\<close>\<close>

text \<open>
  The loop has no bound of its own. It runs against the list of the passes' answers; when
  the list is used up and the loop has not returned, the outcome is \<open>Continue\<close> with the
  state the loop has reached, and the trace is what has happened so far.
\<close>

fun loop ::
  "Duration \<Rightarrow> PollingShardConsumer \<Rightarrow> loopState \<Rightarrow> cycle list \<Rightarrow> event list \<times> outcome" where
  "loop conv sc st [] = ([], Continue st)"
| "loop conv sc st (c # cs) =
     (case iteration conv sc st c of
        (evs, Return r) \<Rightarrow> (evs, Return r)
      | (evs, Continue st1) \<Rightarrow>
          (case loop conv sc st1 cs of (evs1, out) \<Rightarrow> (evs @ evs1, out)))"

text \<open>A call of the method has returned a value, or it is still in its loop.\<close>

datatype call_result = Running | Returned "error option"

text \<open>
  Lines 99 and 113 to 115: the local variables when the loop is entered;
  \<^verbatim>\<open>firstTransactionTime\<close> is the zero \<^verbatim>\<open>time.Time\<close>.
\<close>

definition initialState :: "string option \<Rightarrow> loopState" where
  "initialState it = \<lparr> shardIterator = it, retriedErrors = 0, transactionNum = 0,
     firstTransactionTime = 0 \<rparr>"

text \<open>Lines 99 to 233: from the iterator on.\<close>

definition pollShard ::
  "Duration \<Rightarrow> PollingShardConsumer \<Rightarrow> environment \<Rightarrow> event list \<times> call_result" where
  "pollShard conv sc env =
     (case getShardIterator sc env of
        (evs, Inl err) \<Rightarrow> (evs, Returned (Some err))
      | (evs, Inr it) \<Rightarrow>
          (case loop conv sc (initialState it) (cycles env) of
             (evs1, Return r) \<Rightarrow>
               (evs @ [Initialize (shardID sc) (checkpoint env)] @ evs1, Returned r)
           | (evs1, Continue st1) \<Rightarrow>
               (evs @ [Initialize (shardID sc) (checkpoint env)] @ evs1, Running)))"

text \<open>Lines 88 to 233: everything but the deferred call.\<close>

definition getRecords_body ::
  "Duration \<Rightarrow> PollingShardConsumer \<Rightarrow> environment \<Rightarrow> event list \<times> call_result" where
  "getRecords_body conv sc env =
     (case waitOnParentShardResult env of
        Some err \<Rightarrow>
          (if err \<noteq> ErrSequenceIDNotFound then ([WaitOnParentShard], Returned (Some err))
           else (case pollShard conv sc env of (evs, res) \<Rightarrow> (WaitOnParentShard # evs, res)))
      | None \<Rightarrow> (case pollShard conv sc env of (evs, res) \<Rightarrow> (WaitOnParentShard # evs, res)))"

text \<open>
  Line 86: \<^verbatim>\<open>defer sc.releaseLease(sc.shard.ID)\<close> runs when the method returns, after
  everything else; it has not run while the method is still in its loop.
\<close>

definition getRecords ::
  "Duration \<Rightarrow> PollingShardConsumer \<Rightarrow> environment \<Rightarrow> event list \<times> call_result" where
  "getRecords conv sc env =
     (case getRecords_body conv sc env of
        (evs, Returned r) \<Rightarrow> (evs @ [ReleaseLease (shardID sc)], Returned r)
      | (evs, Running) \<Rightarrow> (evs, Running))"

subsection \<open>Reading a trace\<close>

fun is_ReleaseLease :: "event \<Rightarrow> bool" where
  "is_ReleaseLease (ReleaseLease s) = True"
| "is_ReleaseLease e = False"

fun is_Shutdown :: "event \<Rightarrow> bool" where
  "is_Shutdown (Shutdown r) = True"
| "is_Shutdown e = False"

fun is_GetRecords :: "event \<Rightarrow> bool" where
  "is_GetRecords (GetRecords a) = True"
| "is_GetRecords e = False"

text \<open>
  The call gets as far as the loop: the wait for the parent shard succeeds, or fails with
  the error that the method ignores, and the iterator \<open>it\<close> is granted.
\<close>

definition reachesLoop :: "PollingShardConsumer \<Rightarrow> environment \<Rightarrow> string option \<Rightarrow> bool" where
  "reachesLoop sc env it =
     ((waitOnParentShardResult env = None
         \<or> waitOnParentShardResult env = Some ErrSequenceIDNotFound)
      \<and> snd (getShardIterator sc env) = Inr it)"

text \<open>The errors after which the fetch is tried again.\<close>

definition retriable :: "error \<Rightarrow> bool" where
  "retriable err = (as_ProvisionedThroughputExceeded err \<or> as_KMSThrottling err)"

text \<open>The pass gets as far as the fetch: no renewal is due, or the renewal succeeds.\<close>

definition leaseHeld :: "PollingShardConsumer \<Rightarrow> cycle \<Rightarrow> bool" where
  "leaseHeld sc c = (if renewalDue sc c then getLeaseResult c = None else True)"

text \<open>The pass gets as far as the fetch, and the fetch fails with a retriable error.\<close>

definition failsRetriably :: "PollingShardConsumer \<Rightarrow> cycle \<Rightarrow> bool" where
  "failsRetriably sc c =
     (leaseHeld sc c \<and> (case getRecordsResult c of Inl err \<Rightarrow> retriable err | Inr r \<Rightarrow> False))"

text \<open>The error of the fetch of a pass, if it fails.\<close>

definition fetchError :: "cycle \<Rightarrow> error option" where
  "fetchError c = (case getRecordsResult c of Inl err \<Rightarrow> Some err | Inr r \<Rightarrow> None)"

text \<open>
  The durations, in nanoseconds, of the sleeps of a trace at one of the four places, in
  their order.
\<close>

fun sleeps :: "sleep_site \<Rightarrow> event list \<Rightarrow> int list" where
  "sleeps s [] = []"
| "sleeps s (Sleep s1 d # evs) = (if s1 = s then sint d # sleeps s evs else sleeps s evs)"
| "sleeps s (e # evs) = sleeps s evs"

text \<open>The pass gets as far as the fetch, and the fetch fails with a KMS throttling error.\<close>

definition kmsThrottled :: "PollingShardConsumer \<Rightarrow> cycle \<Rightarrow> bool" where
  "kmsThrottled sc c =
     (leaseHeld sc c
      \<and> (case getRecordsResult c of
            Inl err \<Rightarrow> as_KMSThrottling err
          | Inr r \<Rightarrow> False))"

text \<open>
  The pass gets as far as the fetch, and the fetch fails with a
  provisioned-throughput-exceeded error.
\<close>

definition throughputThrottled :: "PollingShardConsumer \<Rightarrow> cycle \<Rightarrow> bool" where
  "throughputThrottled sc c =
     (leaseHeld sc c
      \<and> (case getRecordsResult c of
            Inl err \<Rightarrow> as_ProvisionedThroughputExceeded err
          | Inr r \<Rightarrow> False))"

text \<open>
  The pass gets as far as the fetch, the fetch succeeds, the shard goes on, and the batch is
  empty with a lag below \<^verbatim>\<open>IdleTimeBetweenReadsInMillis\<close> (line 222).
\<close>

definition idles :: "PollingShardConsumer \<Rightarrow> cycle \<Rightarrow> bool" where
  "idles sc c =
     (leaseHeld sc c
      \<and> (case getRecordsResult c of
            Inl err \<Rightarrow> False
          | Inr getResp \<Rightarrow>
              NextShardIterator getResp \<noteq> None
              \<and> Records getResp = []
              \<and> ToInt64 (MillisBehindLatest getResp)
                    <s IdleTimeBetweenReadsInMillis (kclConfig sc)))"

text \<open>Line 223: \<^verbatim>\<open>time.Duration(sc.kclConfig.IdleTimeBetweenReadsInMillis) * time.Millisecond\<close>.\<close>

definition idleInterval :: "PollingShardConsumer \<Rightarrow> Duration" where
  "idleInterval sc = IdleTimeBetweenReadsInMillis (kclConfig sc) * Millisecond"

fun is_PollStop :: "event \<Rightarrow> bool" where
  "is_PollStop PollStop = True"
| "is_PollStop e = False"

text \<open>The same answers with the stop signal raised in every pass.\<close>

definition stopRaised :: "cycle list \<Rightarrow> cycle list" where
  "stopRaised cs = map (\<lambda>c. c\<lparr>stopSignalled := True\<rparr>) cs"

subsection \<open>Example inputs\<close>

definition example_config :: kclConfig where
  "example_config = \<lparr> MaxRecords = 10000, MaxRetryCount = 2,
     IdleTimeBetweenReadsInMillis = 1000, LeaseRefreshPeriodMillis = 5000 \<rparr>"

definition example_consumer :: PollingShardConsumer where
  "example_consumer = \<lparr> shardID = ''shard-1'', streamName = ''stream'',
     consumerID = ''worker-1'', kclConfig = example_config \<rparr>"

definition example_record :: Record where
  "example_record = \<lparr> Data = ''payload'', PartitionKey = ''key'', SequenceNumber = ''1'' \<rparr>"

text \<open>
  A pass at the instant \<open>t\<close> whose lease expires a minute later, so that no renewal is due,
  with the given result of the fetch.
\<close>

definition example_cycle :: "Time \<Rightarrow> error + GetRecordsOutput \<Rightarrow> cycle" where
  "example_cycle t res = \<lparr> nowUTC = t, leaseTimeout = t + 60000000000, getLeaseResult = None,
     getRecordsStartTime = t, nowRateLimit = t, getRecordsResult = res,
     getRecordsTransactionTime = t, nowAfterError = t, stopSignalled = False \<rparr>"

text \<open>A shard without a parent to wait for, whose iterator is granted.\<close>

definition example_env :: "cycle list \<Rightarrow> environment" where
  "example_env cs = \<lparr> waitOnParentShardResult = None,
     getStartingPositionResult =
       Inr \<lparr> pos_Type = TRIM_HORIZON, pos_SequenceNumber = None, pos_Timestamp = None \<rparr>,
     getShardIteratorResult = Inr (Some ''iterator-0''),
     checkpoint = ''TRIM_HORIZON'', cycles = cs \<rparr>"

text \<open>The last batch of a closed shard: one record and no continuation iterator.\<close>

definition closed_response :: GetRecordsOutput where
  "closed_response = \<lparr> Records = [example_record], MillisBehindLatest = Some 0,
     NextShardIterator = None \<rparr>"

text \<open>A batch of one record from a shard that goes on.\<close>

definition open_response :: GetRecordsOutput where
  "open_response = \<lparr> Records = [example_record], MillisBehindLatest = Some 0,
     NextShardIterator = Some ''iterator-1'' \<rparr>"

text \<open>
  A pass two seconds before the lease expires, which is within the refresh period of five
  seconds: the renewal is due, and the lease store answers \<open>res\<close>.
\<close>

definition renewal_cycle :: "error option \<Rightarrow> cycle" where
  "renewal_cycle res = (example_cycle 0 (Inr open_response))
     \<lparr> nowUTC := 58000000000, getLeaseResult := res \<rparr>"

text \<open>A pass whose fetch fails with \<open>err\<close>.\<close>

definition throttled_cycle :: "error \<Rightarrow> cycle" where
  "throttled_cycle err = example_cycle 0 (Inl err)"

text \<open>The same consumer with a retry budget of 40.\<close>

definition patient_consumer :: PollingShardConsumer where
  "patient_consumer = example_consumer\<lparr> kclConfig := example_config\<lparr> MaxRetryCount := 40 \<rparr> \<rparr>"

text \<open>
  A pass whose fetch starts at the instant 0, takes \<open>t\<close> nanoseconds and fails with a
  provisioned-throughput-exceeded error; the clock is read again at once.
\<close>

definition slow_throttled_cycle :: "Time \<Rightarrow> cycle" where
  "slow_throttled_cycle t =
     (example_cycle 0 (Inl (ProvisionedThroughputExceededException ''slow'')))
       \<lparr> getRecordsTransactionTime := t, nowAfterError := t \<rparr>"

text \<open>An empty batch at the tip of a shard that goes on, and the empty last batch of a closed shard.\<close>

definition empty_response :: GetRecordsOutput where
  "empty_response = \<lparr> Records = [], MillisBehindLatest = Some 0,
     NextShardIterator = Some ''iterator-1'' \<rparr>"

definition empty_closed_response :: GetRecordsOutput where
  "empty_closed_response = \<lparr> Records = [], MillisBehindLatest = Some 0,
     NextShardIterator = None \<rparr>"

text \<open>A pass with a batch of one record, with the stop signal raised.\<close>

definition stopped_cycle :: cycle where
  "stopped_cycle = (example_cycle 0 (Inr open_response))\<lparr> stopSignalled := True \<rparr>"

text \<open>
  Seven passes of a consumer that is catching up: every fetch returns a record at once. The
  first six fetches return at the instants 0, 10, ..., 50 ms; the seventh pass starts at
  100 ms, and its fetch returns at 210 ms, after the sleep of the rate limiter.
\<close>

definition busy_cycles :: "cycle list" where
  "busy_cycles =
     [example_cycle 0 (Inr open_response),
      example_cycle 10000000 (Inr open_response),
      example_cycle 20000000 (Inr open_response),
      example_cycle 30000000 (Inr open_response),
      example_cycle 40000000 (Inr open_response),
      example_cycle 50000000 (Inr open_response),
      (example_cycle 100000000 (Inr open_response))\<lparr> getRecordsTransactionTime := 210000000 \<rparr>]"

section \<open>Properties\<close>

lemmas model_defs =
  getRecords_def getRecords_body_def pollShard_def getShardIterator_def iteration_def
  refreshLease_def renewalDue_def rateLimit_def fetchFailed_def fetchSucceeded_def idlePacing_def
  kmsBackoff_def exp2_times_100_def time_Add_def time_After_def time_Sub_def time_Since_def
  Millisecond_def Second_def MaxReadTransactionsPerSecond_def ToInt64_def int32_def
  initialState_def word_sless_alt Let_def

lemmas example_defs =
  example_config_def example_consumer_def example_record_def example_cycle_def example_env_def
  closed_response_def open_response_def renewal_cycle_def throttled_cycle_def stopped_cycle_def

subsection \<open>The loop, pass by pass\<close>

lemma loop_append:
  "loop conv sc st (cs @ ds) =
     (case loop conv sc st cs of
        (evs, Return r) \<Rightarrow> (evs, Return r)
      | (evs, Continue st1) \<Rightarrow> (case loop conv sc st1 ds of (evs1, out) \<Rightarrow> (evs @ evs1, out)))"
proof (induction cs arbitrary: st)
  case Nil
  show ?case by simp
next
  case (Cons c cs)
  obtain evs out where it: "iteration conv sc st c = (evs, out)"
    by (cases "iteration conv sc st c")
  show ?case
  proof (cases out)
    case (Return r)
    with it show ?thesis by simp
  next
    case (Continue st1)
    with it Cons.IH [of st1] show ?thesis
      by (simp split: prod.split outcome.split)
  qed
qed

lemma refreshLease_held:
  assumes "leaseHeld sc c"
  shows "snd (refreshLease sc c) = None"
  using assms by (simp add: refreshLease_def leaseHeld_def)

lemma iteration_fetch:
  assumes "leaseHeld sc c"
  shows "iteration conv sc st c =
           (fst (refreshLease sc c) @ fst (rateLimit st c)
              @ [GetRecords \<lparr> Limit = int32 (MaxRecords (kclConfig sc)),
                                ShardIterator = shardIterator st \<rparr>]
              @ fst (case getRecordsResult c of
                       Inl err \<Rightarrow> fetchFailed conv sc (snd (rateLimit st c)) c err
                     | Inr getResp \<Rightarrow> fetchSucceeded sc (snd (rateLimit st c)) c getResp),
            snd (case getRecordsResult c of
                   Inl err \<Rightarrow> fetchFailed conv sc (snd (rateLimit st c)) c err
                 | Inr getResp \<Rightarrow> fetchSucceeded sc (snd (rateLimit st c)) c getResp))"
proof -
  obtain renewal where r: "refreshLease sc c = (renewal, None)"
    using refreshLease_held [OF assms] by (cases "refreshLease sc c") simp
  obtain limiter st1 where l: "rateLimit st c = (limiter, st1)" by (cases "rateLimit st c")
  show ?thesis
    using r l by (simp add: iteration_def Let_def split: prod.split sum.split)
qed

lemma rateLimit_retriedErrors: "retriedErrors (snd (rateLimit st c)) = retriedErrors st"
  by (simp add: rateLimit_def Let_def)

lemma getRecords_of_loop:
  assumes "reachesLoop sc env it"
    and "loop conv sc (initialState it) (cycles env) = (evs, out)"
  shows "getRecords conv sc env =
           (WaitOnParentShard # fst (getShardIterator sc env)
              @ [Initialize (shardID sc) (checkpoint env)] @ evs
              @ (case out of Return r \<Rightarrow> [ReleaseLease (shardID sc)] | Continue s \<Rightarrow> []),
            case out of Return r \<Rightarrow> Returned r | Continue s \<Rightarrow> Running)"
proof -
  obtain gs where g: "getShardIterator sc env = (gs, Inr it)"
    using assms(1) by (cases "getShardIterator sc env") (simp add: reachesLoop_def)
  have p: "pollShard conv sc env =
             (gs @ [Initialize (shardID sc) (checkpoint env)] @ evs,
              case out of Return r \<Rightarrow> Returned r | Continue s \<Rightarrow> Running)"
    using g assms(2) by (cases out) (simp_all add: pollShard_def)
  have b: "getRecords_body conv sc env =
             (WaitOnParentShard # gs @ [Initialize (shardID sc) (checkpoint env)] @ evs,
              case out of Return r \<Rightarrow> Returned r | Continue s \<Rightarrow> Running)"
    using assms(1) p by (auto simp add: reachesLoop_def getRecords_body_def)
  show ?thesis
    using b g by (cases out) (simp_all add: getRecords_def)
qed

lemma sleeps_append: "sleeps s (xs @ ys) = sleeps s xs @ sleeps s ys"
  by (induction s xs rule: sleeps.induct) simp_all

lemma refreshLease_sleeps: "sleeps s (fst (refreshLease sc c)) = []"
  by (simp add: refreshLease_def split: option.split)

lemma rateLimit_sleeps_other:
  "s \<noteq> RateLimit \<Longrightarrow> sleeps s (fst (rateLimit st c)) = []"
  by (simp add: rateLimit_def Let_def)

lemma iteration_lease_not_held:
  assumes "\<not> leaseHeld sc c"
  shows "fst (iteration conv sc st c) = [GetLease (shardID sc) (consumerID sc)]"
  using assms by (auto simp add: leaseHeld_def iteration_def refreshLease_def split: if_splits)

lemma refreshLease_events:
  "filter is_GetRecords (fst (refreshLease sc c)) = []"
  "filter is_Shutdown (fst (refreshLease sc c)) = []"
  by (simp_all add: refreshLease_def split: option.split)

lemma rateLimit_events:
  "filter is_GetRecords (fst (rateLimit st c)) = []"
  "filter is_Shutdown (fst (rateLimit st c)) = []"
  by (simp_all add: rateLimit_def Let_def)

lemma fetchSucceeded_events:
  "fst (fetchSucceeded sc st c getResp) =
     ProcessRecords (getRecordsStartTime c) (Records getResp) (MillisBehindLatest getResp)
       # (if NextShardIterator getResp = None then [Shutdown TERMINATE]
          else idlePacing sc getResp @ PollStop
                 # (if stopSignalled c then [Shutdown REQUESTED] else []))"
  by (simp add: fetchSucceeded_def Let_def)

lemma fetchFailed_sleeps_Idle: "sleeps Idle (fst (fetchFailed conv sc st c err)) = []"
  by (simp add: fetchFailed_def Let_def)

subsection \<open>Signed values of durations\<close>

lemma sint_word64_of_int:
  assumes "- 9223372036854775808 \<le> x" and "x < 9223372036854775808"
  shows "sint (word_of_int x :: 64 word) = x"
proof -
  have "sint (word_of_int x :: 64 word) = signed_take_bit 63 x"
    by (simp add: sint_sbintrunc')
  also have "\<dots> = x"
    using assms by (intro signed_take_bit_int_eq_self) simp_all
  finally show ?thesis .
qed

lemma sint_word64_of_nat:
  assumes "n < 9223372036854775808"
  shows "sint (of_nat n :: 64 word) = int n"
  using sint_word64_of_int [of "int n"] assms by simp

lemma time_Since_elapsed:
  assumes "0 \<le> now - t"
  shows "sint (time_Since now t) = min (now - t) 9223372036854775807"
proof (cases "9223372036854775807 < now - t")
  case True
  then show ?thesis by (simp add: time_Since_def time_Sub_def)
next
  case False
  then have "time_Since now t = word_of_int (now - t)"
    using assms by (simp add: time_Since_def time_Sub_def)
  moreover have "sint (word_of_int (now - t) :: 64 word) = now - t"
    using assms False by (intro sint_word64_of_int) linarith+
  ultimately show ?thesis using False by simp
qed

subsection \<open>Example runs\<close>

lemma example_reachesLoop: "reachesLoop example_consumer (example_env cs) (Some ''iterator-0'')"
  by (simp add: reachesLoop_def getShardIterator_def example_defs)

lemma example_getShardIterator:
  "fst (getShardIterator example_consumer (example_env cs)) =
     [GetStartingPosition,
      GetShardIterator \<lparr> in_ShardId = ''shard-1'', in_ShardIteratorType = TRIM_HORIZON,
        in_StartingSequenceNumber = None, in_Timestamp = None, in_StreamName = ''stream'' \<rparr>]"
  by (simp add: getShardIterator_def example_defs)

lemma example_open_pass:
  "loop 0 example_consumer (initialState (Some ''iterator-0''))
     [example_cycle 0 (Inr open_response)] =
     ([GetRecords \<lparr> Limit = 10000, ShardIterator = Some ''iterator-0'' \<rparr>,
       ProcessRecords 0 [example_record] (Some 0), PollStop],
      Continue \<lparr> shardIterator = Some ''iterator-1'', retriedErrors = 0,
        transactionNum = 1, firstTransactionTime = 0 \<rparr>)"
  by (simp add: model_defs example_defs)

lemma example_closed_shard_run:
  "getRecords 0 example_consumer (example_env [example_cycle 0 (Inr closed_response)]) =
     ([WaitOnParentShard, GetStartingPosition,
       GetShardIterator \<lparr> in_ShardId = ''shard-1'', in_ShardIteratorType = TRIM_HORIZON,
         in_StartingSequenceNumber = None, in_Timestamp = None, in_StreamName = ''stream'' \<rparr>,
       Initialize ''shard-1'' ''TRIM_HORIZON'',
       GetRecords \<lparr> Limit = 10000, ShardIterator = Some ''iterator-0'' \<rparr>,
       ProcessRecords 0 [example_record] (Some 0),
       Shutdown TERMINATE,
       ReleaseLease ''shard-1''],
      Returned None)"
  by (simp add: model_defs example_defs)

subsection \<open>The lease is released once, last\<close>

lemma refreshLease_no_release: "filter is_ReleaseLease (fst (refreshLease sc c)) = []"
  by (simp add: refreshLease_def split: option.split)

lemma rateLimit_no_release: "filter is_ReleaseLease (fst (rateLimit st c)) = []"
  by (simp add: rateLimit_def Let_def)

lemma fetchFailed_no_release: "filter is_ReleaseLease (fst (fetchFailed conv sc st c err)) = []"
  by (simp add: fetchFailed_def Let_def)

lemma idlePacing_no_release: "filter is_ReleaseLease (idlePacing sc r) = []"
  by (simp add: idlePacing_def)

lemma fetchSucceeded_no_release: "filter is_ReleaseLease (fst (fetchSucceeded sc st c r)) = []"
  by (simp add: fetchSucceeded_def Let_def idlePacing_no_release)

lemma iteration_no_release: "filter is_ReleaseLease (fst (iteration conv sc st c)) = []"
proof (cases "refreshLease sc c")
  case (Pair renewal res)
  have r: "filter is_ReleaseLease renewal = []"
    using refreshLease_no_release [of sc c] Pair by simp
  show ?thesis
  proof (cases res)
    case (Some x)
    with Pair r show ?thesis by (simp add: iteration_def)
  next
    case None
    obtain limiter st1 where rl: "rateLimit st c = (limiter, st1)" by (cases "rateLimit st c")
    have l: "filter is_ReleaseLease limiter = []"
      using rateLimit_no_release [of st c] rl by simp
    show ?thesis
    proof (cases "getRecordsResult c")
      case (Inl err)
      obtain rest out where ff: "fetchFailed conv sc st1 c err = (rest, out)"
        by (cases "fetchFailed conv sc st1 c err")
      have "filter is_ReleaseLease rest = []"
        using fetchFailed_no_release [of conv sc st1 c err] ff by simp
      with Pair None rl Inl ff r l show ?thesis by (simp add: iteration_def)
    next
      case (Inr getResp)
      obtain rest out where fs: "fetchSucceeded sc st1 c getResp = (rest, out)"
        by (cases "fetchSucceeded sc st1 c getResp")
      have "filter is_ReleaseLease rest = []"
        using fetchSucceeded_no_release [of sc st1 c getResp] fs by simp
      with Pair None rl Inr fs r l show ?thesis by (simp add: iteration_def)
    qed
  qed
qed

lemma loop_no_release: "filter is_ReleaseLease (fst (loop conv sc st cs)) = []"
proof (induction cs arbitrary: st)
  case Nil
  show ?case by simp
next
  case (Cons c cs)
  obtain evs out where it: "iteration conv sc st c = (evs, out)"
    by (cases "iteration conv sc st c")
  have e: "filter is_ReleaseLease evs = []"
    using iteration_no_release [of conv sc st c] it by simp
  show ?case
  proof (cases out)
    case (Return r)
    with it e show ?thesis by simp
  next
    case (Continue st1)
    obtain evs1 out1 where l: "loop conv sc st1 cs = (evs1, out1)"
      by (cases "loop conv sc st1 cs")
    have "filter is_ReleaseLease evs1 = []"
      using Cons.IH [of st1] l by simp
    with it e Continue l show ?thesis by simp
  qed
qed

lemma getShardIterator_no_release: "filter is_ReleaseLease (fst (getShardIterator sc env)) = []"
  by (simp add: getShardIterator_def Let_def split: sum.split)

lemma pollShard_no_release: "filter is_ReleaseLease (fst (pollShard conv sc env)) = []"
proof -
  obtain evs r where g: "getShardIterator sc env = (evs, r)" by (cases "getShardIterator sc env")
  have e: "filter is_ReleaseLease evs = []"
    using getShardIterator_no_release [of sc env] g by simp
  show ?thesis
  proof (cases r)
    case (Inl err)
    with g e show ?thesis by (simp add: pollShard_def)
  next
    case (Inr it)
    let ?st = "initialState it"
    obtain evs1 out where l: "loop conv sc ?st (cycles env) = (evs1, out)"
      by (cases "loop conv sc ?st (cycles env)")
    have "filter is_ReleaseLease evs1 = []"
      using loop_no_release [of conv sc ?st "cycles env"] l by simp
    with g e Inr l show ?thesis by (cases out) (simp_all add: pollShard_def)
  qed
qed

lemma getRecords_body_no_release:
  "filter is_ReleaseLease (fst (getRecords_body conv sc env)) = []"
proof -
  obtain evs res where p: "pollShard conv sc env = (evs, res)" by (cases "pollShard conv sc env")
  have "filter is_ReleaseLease evs = []"
    using pollShard_no_release [of conv sc env] p by simp
  with p show ?thesis
    by (simp add: getRecords_body_def split: option.split)
qed

text \<open>
  Claim C1. Whenever \<^verbatim>\<open>getRecords\<close> returns, with \<^verbatim>\<open>nil\<close> or with an error and
  by whichever \<^verbatim>\<open>return\<close> statement, its trace is a trace without any release of the
  lease followed by one release of the shard's lease: the lease is released exactly once, and
  every shutdown notification to the record processor comes before the release. While the
  method is still in its loop, the lease has not been released.
\<close>

theorem lease_released_exactly_once:
  assumes "getRecords conv sc env = (tr, res)"
  shows "case res of
           Returned r \<Rightarrow>
             (\<exists>pre. tr = pre @ [ReleaseLease (shardID sc)]
                \<and> filter is_ReleaseLease pre = []
                \<and> filter is_Shutdown pre = filter is_Shutdown tr
                \<and> length (filter is_ReleaseLease tr) = 1)
         | Running \<Rightarrow> filter is_ReleaseLease tr = []"
proof -
  obtain evs res1 where b: "getRecords_body conv sc env = (evs, res1)"
    by (cases "getRecords_body conv sc env")
  have e: "filter is_ReleaseLease evs = []"
    using getRecords_body_no_release [of conv sc env] b by simp
  show ?thesis
  proof (cases res1)
    case Running
    with assms b e show ?thesis by (simp add: getRecords_def)
  next
    case (Returned r)
    with assms b have "tr = evs @ [ReleaseLease (shardID sc)]" and "res = Returned r"
      by (simp_all add: getRecords_def)
    with e show ?thesis by simp
  qed
qed

lemma example_exits:
  "snd (getRecords 0 example_consumer (example_env [example_cycle 0 (Inr closed_response)]))
     = Returned None"
  "snd (getRecords 0 example_consumer (example_env [stopped_cycle])) = Returned None"
  "snd (getRecords 0 example_consumer
     (example_env [renewal_cycle (Some (ErrLeaseNotAcquired ''taken''))])) = Returned None"
  "snd (getRecords 0 example_consumer
     ((example_env [])\<lparr>waitOnParentShardResult := Some (OtherError ''store'')\<rparr>))
     = Returned (Some (OtherError ''store''))"
  "snd (getRecords 0 example_consumer
     ((example_env [])\<lparr>getShardIteratorResult := Inl (OtherError ''no iterator'')\<rparr>))
     = Returned (Some (OtherError ''no iterator''))"
  "snd (getRecords 0 example_consumer
     (example_env [throttled_cycle (OtherError ''expired iterator'')]))
     = Returned (Some (OtherError ''expired iterator''))"
  "snd (getRecords 0 example_consumer
     (example_env [throttled_cycle (ProvisionedThroughputExceededException ''first''),
        throttled_cycle (KMSThrottlingException ''second''),
        throttled_cycle (ProvisionedThroughputExceededException ''third'')]))
     = Returned (Some (ProvisionedThroughputExceededException ''third''))"
  by (simp_all add: model_defs example_defs)

text \<open>
  One run for each way out of the method: the shard is closed; the stop signal is raised; the
  lease is lost; the wait for the parent shard fails; no iterator is granted; the fetch fails
  with an error that is not retried; the retry budget (of two) is used up.
\<close>

theorem lease_released_exactly_once_witness:
  "(snd (getRecords 0 example_consumer (example_env [example_cycle 0 (Inr closed_response)]))
      = Returned None
    \<and> (\<exists>pre. fst (getRecords 0 example_consumer
             (example_env [example_cycle 0 (Inr closed_response)]))
           = pre @ [ReleaseLease ''shard-1'']
      \<and> filter is_ReleaseLease pre = []
      \<and> filter is_Shutdown pre = [Shutdown TERMINATE]))
   \<and> (snd (getRecords 0 example_consumer (example_env [stopped_cycle])) = Returned None
    \<and> (\<exists>pre. fst (getRecords 0 example_consumer (example_env [stopped_cycle]))
           = pre @ [ReleaseLease ''shard-1'']
      \<and> filter is_ReleaseLease pre = []
      \<and> filter is_Shutdown pre = [Shutdown REQUESTED]))
   \<and> (snd (getRecords 0 example_consumer
          (example_env [renewal_cycle (Some (ErrLeaseNotAcquired ''taken''))])) = Returned None
    \<and> (\<exists>pre. fst (getRecords 0 example_consumer
             (example_env [renewal_cycle (Some (ErrLeaseNotAcquired ''taken''))]))
           = pre @ [ReleaseLease ''shard-1'']
      \<and> filter is_ReleaseLease pre = []))
   \<and> (snd (getRecords 0 example_consumer
          ((example_env [])\<lparr>waitOnParentShardResult := Some (OtherError ''store'')\<rparr>))
      = Returned (Some (OtherError ''store''))
    \<and> (\<exists>pre. fst (getRecords 0 example_consumer
             ((example_env [])\<lparr>waitOnParentShardResult := Some (OtherError ''store'')\<rparr>))
           = pre @ [ReleaseLease ''shard-1'']
      \<and> filter is_ReleaseLease pre = []))
   \<and> (snd (getRecords 0 example_consumer
          ((example_env [])\<lparr>getShardIteratorResult := Inl (OtherError ''no iterator'')\<rparr>))
      = Returned (Some (OtherError ''no iterator''))
    \<and> (\<exists>pre. fst (getRecords 0 example_consumer
             ((example_env [])\<lparr>getShardIteratorResult := Inl (OtherError ''no iterator'')\<rparr>))
           = pre @ [ReleaseLease ''shard-1'']
      \<and> filter is_ReleaseLease pre = []))
   \<and> (snd (getRecords 0 example_consumer
          (example_env [throttled_cycle (OtherError ''expired iterator'')]))
      = Returned (Some (OtherError ''expired iterator''))
    \<and> (\<exists>pre. fst (getRecords 0 example_consumer
             (example_env [throttled_cycle (OtherError ''expired iterator'')]))
           = pre @ [ReleaseLease ''shard-1'']
      \<and> filter is_ReleaseLease pre = []))
   \<and> (snd (getRecords 0 example_consumer
          (example_env [throttled_cycle (ProvisionedThroughputExceededException ''first''),
             throttled_cycle (KMSThrottlingException ''second''),
             throttled_cycle (ProvisionedThroughputExceededException ''third'')]))
      = Returned (Some (ProvisionedThroughputExceededException ''third''))
    \<and> (\<exists>pre. fst (getRecords 0 example_consumer
             (example_env [throttled_cycle (ProvisionedThroughputExceededException ''first''),
                throttled_cycle (KMSThrottlingException ''second''),
                throttled_cycle (ProvisionedThroughputExceededException ''third'')]))
           = pre @ [ReleaseLease ''shard-1'']
      \<and> filter is_ReleaseLease pre = []))"
proof -
  have n: "shardID example_consumer = ''shard-1''"
    by (simp add: example_defs)
  have t: "filter is_Shutdown (fst (getRecords 0 example_consumer
             (example_env [example_cycle 0 (Inr closed_response)]))) = [Shutdown TERMINATE]"
    "filter is_Shutdown (fst (getRecords 0 example_consumer (example_env [stopped_cycle])))
       = [Shutdown REQUESTED]"
    by (simp_all add: model_defs example_defs)
  note w = lease_released_exactly_once [OF prod.collapse [symmetric], of 0 example_consumer]
  show ?thesis
    using w [of "example_env [example_cycle 0 (Inr closed_response)]"]
      w [of "example_env [stopped_cycle]"]
      w [of "example_env [renewal_cycle (Some (ErrLeaseNotAcquired ''taken''))]"]
      w [of "(example_env [])\<lparr>waitOnParentShardResult := Some (OtherError ''store'')\<rparr>"]
      w [of "(example_env [])\<lparr>getShardIteratorResult := Inl (OtherError ''no iterator'')\<rparr>"]
      w [of "example_env [throttled_cycle (OtherError ''expired iterator'')]"]
      w [of "example_env [throttled_cycle (ProvisionedThroughputExceededException ''first''),
                throttled_cycle (KMSThrottlingException ''second''),
                throttled_cycle (ProvisionedThroughputExceededException ''third'')]"]
    unfolding example_exits n using t by auto
qed

subsection \<open>A failed renewal of the lease\<close>

lemma iteration_lease_failure:
  assumes "renewalDue sc c" and "getLeaseResult c = Some err"
  shows "iteration conv sc st c =
           ([GetLease (shardID sc) (consumerID sc)],
            Return (if as_ErrLeaseNotAcquired err then None else Some err))"
  using assms by (simp add: iteration_def refreshLease_def)

text \<open>
  Claim C5. In a pass in which the renewal of the lease is due and \<^verbatim>\<open>GetLease\<close> fails:
  if the error is a lease-not-acquired error (by \<^verbatim>\<open>errors.As\<close>) the loop ends and the
  method returns \<^verbatim>\<open>nil\<close>; with any other error the loop ends and the method returns
  that error. Nothing happens in that pass after the call of \<^verbatim>\<open>GetLease\<close>: no fetch and
  no shutdown notification; the method releases the lease and returns. The earlier passes
  \<open>cs0\<close> are any passes that left the loop running.
\<close>

theorem lease_renewal_failure_ends_loop:
  assumes "renewalDue sc c" and "getLeaseResult c = Some err"
    and "loop conv sc st0 cs0 = (evs0, Continue st)"
  shows "loop conv sc st0 (cs0 @ c # cs) =
           (evs0 @ [GetLease (shardID sc) (consumerID sc)],
            Return (if as_ErrLeaseNotAcquired err then None else Some err))
         \<and> (reachesLoop sc env it \<and> st0 = initialState it \<and> cycles env = cs0 @ c # cs \<longrightarrow>
              getRecords conv sc env =
                (WaitOnParentShard # fst (getShardIterator sc env)
                   @ [Initialize (shardID sc) (checkpoint env)] @ evs0
                   @ [GetLease (shardID sc) (consumerID sc), ReleaseLease (shardID sc)],
                 Returned (if as_ErrLeaseNotAcquired err then None else Some err)))"
proof -
  have l: "loop conv sc st0 (cs0 @ c # cs) =
           (evs0 @ [GetLease (shardID sc) (consumerID sc)],
            Return (if as_ErrLeaseNotAcquired err then None else Some err))"
    using assms(3) iteration_lease_failure [OF assms(1,2), of conv st]
    by (simp add: loop_append)
  show ?thesis
  proof (intro conjI impI)
    show "loop conv sc st0 (cs0 @ c # cs) =
           (evs0 @ [GetLease (shardID sc) (consumerID sc)],
            Return (if as_ErrLeaseNotAcquired err then None else Some err))"
      by (rule l)
  next
    assume a: "reachesLoop sc env it \<and> st0 = initialState it \<and> cycles env = cs0 @ c # cs"
    then have "loop conv sc (initialState it) (cycles env) =
           (evs0 @ [GetLease (shardID sc) (consumerID sc)],
            Return (if as_ErrLeaseNotAcquired err then None else Some err))"
      using l by simp
    from getRecords_of_loop [OF _ this] a
    show "getRecords conv sc env =
                (WaitOnParentShard # fst (getShardIterator sc env)
                   @ [Initialize (shardID sc) (checkpoint env)] @ evs0
                   @ [GetLease (shardID sc) (consumerID sc), ReleaseLease (shardID sc)],
                 Returned (if as_ErrLeaseNotAcquired err then None else Some err))"
      by simp
  qed
qed

lemma example_renewal_due: "renewalDue example_consumer (renewal_cycle res)"
  by (simp add: model_defs example_defs)

theorem lease_renewal_failure_ends_loop_witness:
  "renewalDue example_consumer (renewal_cycle (Some (ErrLeaseNotAcquired ''taken'')))
   \<and> renewalDue example_consumer (renewal_cycle (Some (OtherError ''timeout'')))
   \<and> getRecords 0 example_consumer
        (example_env ([example_cycle 0 (Inr open_response)]
           @ renewal_cycle (Some (ErrLeaseNotAcquired ''taken'')) # [])) =
       ([WaitOnParentShard, GetStartingPosition,
         GetShardIterator \<lparr> in_ShardId = ''shard-1'', in_ShardIteratorType = TRIM_HORIZON,
           in_StartingSequenceNumber = None, in_Timestamp = None, in_StreamName = ''stream'' \<rparr>,
         Initialize ''shard-1'' ''TRIM_HORIZON'',
         GetRecords \<lparr> Limit = 10000, ShardIterator = Some ''iterator-0'' \<rparr>,
         ProcessRecords 0 [example_record] (Some 0), PollStop,
         GetLease ''shard-1'' ''worker-1'', ReleaseLease ''shard-1''],
        Returned None)
   \<and> getRecords 0 example_consumer
        (example_env ([example_cycle 0 (Inr open_response)]
           @ renewal_cycle (Some (OtherError ''timeout'')) # [])) =
       ([WaitOnParentShard, GetStartingPosition,
         GetShardIterator \<lparr> in_ShardId = ''shard-1'', in_ShardIteratorType = TRIM_HORIZON,
           in_StartingSequenceNumber = None, in_Timestamp = None, in_StreamName = ''stream'' \<rparr>,
         Initialize ''shard-1'' ''TRIM_HORIZON'',
         GetRecords \<lparr> Limit = 10000, ShardIterator = Some ''iterator-0'' \<rparr>,
         ProcessRecords 0 [example_record] (Some 0), PollStop,
         GetLease ''shard-1'' ''worker-1'', ReleaseLease ''shard-1''],
        Returned (Some (OtherError ''timeout'')))"
proof -
  have a: "getLeaseResult (renewal_cycle res) = res" for res
    by (simp add: example_defs)
  have n: "shardID example_consumer = ''shard-1''" "consumerID example_consumer = ''worker-1''"
    "checkpoint (example_env cs) = ''TRIM_HORIZON''" "cycles (example_env cs) = cs" for cs
    by (simp_all add: example_defs)
  show ?thesis
    using lease_renewal_failure_ends_loop [where cs = "[]" and it = "Some ''iterator-0''"
          and env = "example_env ([example_cycle 0 (Inr open_response)]
              @ renewal_cycle (Some (ErrLeaseNotAcquired ''taken'')) # [])",
          OF example_renewal_due a [of "Some (ErrLeaseNotAcquired ''taken'')"] example_open_pass]
      lease_renewal_failure_ends_loop [where cs = "[]" and it = "Some ''iterator-0''"
          and env = "example_env ([example_cycle 0 (Inr open_response)]
              @ renewal_cycle (Some (OtherError ''timeout'')) # [])",
          OF example_renewal_due a [of "Some (OtherError ''timeout'')"] example_open_pass]
      example_renewal_due example_reachesLoop example_getShardIterator n
    by simp
qed

subsection \<open>The wait for the parent shard\<close>

lemma getShardIterator_starts:
  "\<exists>evs. fst (getShardIterator sc env) = GetStartingPosition # evs"
  by (simp add: getShardIterator_def Let_def split: sum.split)

lemma getRecords_parent_done:
  "\<exists>evs. fst (getRecords conv sc (env\<lparr>waitOnParentShardResult := None\<rparr>))
      = WaitOnParentShard # GetStartingPosition # evs"
proof -
  let ?env = "env\<lparr>waitOnParentShardResult := None\<rparr>"
  obtain gs where g: "fst (getShardIterator sc ?env) = GetStartingPosition # gs"
    using getShardIterator_starts [of sc ?env] by blast
  have "\<exists>evs. fst (pollShard conv sc ?env) = GetStartingPosition # evs"
    using g by (auto simp add: pollShard_def split: prod.split sum.split outcome.split)
  then have "\<exists>evs. fst (getRecords_body conv sc ?env) = WaitOnParentShard # GetStartingPosition # evs"
    by (auto simp add: getRecords_body_def split: prod.split)
  then show ?thesis
    by (auto simp add: getRecords_def split: prod.split call_result.split)
qed

text \<open>
  Claim C6. When the wait for the parent shard fails with the error
  \<^verbatim>\<open>chk.ErrSequenceIDNotFound\<close>, the method goes on exactly as if the wait had
  succeeded, and the next thing it does is to get the shard iterator. When the wait fails
  with any other error, the method returns that error at once: the record processor is not
  initialized and nothing is fetched; only the lease is released.
\<close>

theorem parent_wait_errors:
  assumes "waitOnParentShardResult env = Some err"
  shows "getRecords conv sc env =
           (if err = ErrSequenceIDNotFound
            then getRecords conv sc (env\<lparr>waitOnParentShardResult := None\<rparr>)
            else ([WaitOnParentShard, ReleaseLease (shardID sc)], Returned (Some err)))
         \<and> take 2 (fst (getRecords conv sc (env\<lparr>waitOnParentShardResult := None\<rparr>)))
             = [WaitOnParentShard, GetStartingPosition]"
proof -
  have gi: "getShardIterator sc (env\<lparr>waitOnParentShardResult := None\<rparr>) = getShardIterator sc env"
    by (simp add: getShardIterator_def split: sum.split)
  have p: "pollShard conv sc (env\<lparr>waitOnParentShardResult := None\<rparr>) = pollShard conv sc env"
    by (simp add: pollShard_def gi split: prod.split sum.split outcome.split)
  have b: "getRecords_body conv sc env =
             (if err = ErrSequenceIDNotFound
              then getRecords_body conv sc (env\<lparr>waitOnParentShardResult := None\<rparr>)
              else ([WaitOnParentShard], Returned (Some err)))"
    using assms by (simp add: getRecords_body_def p)
  have t: "take 2 (fst (getRecords conv sc (env\<lparr>waitOnParentShardResult := None\<rparr>)))
             = [WaitOnParentShard, GetStartingPosition]"
    using getRecords_parent_done [of conv sc env] by auto
  from b have "getRecords conv sc env =
           (if err = ErrSequenceIDNotFound
            then getRecords conv sc (env\<lparr>waitOnParentShardResult := None\<rparr>)
            else ([WaitOnParentShard, ReleaseLease (shardID sc)], Returned (Some err)))"
    by (simp add: getRecords_def)
  with t show ?thesis by simp
qed

theorem parent_wait_errors_witness:
  "getRecords 0 example_consumer
     ((example_env [example_cycle 0 (Inr closed_response)])
        \<lparr>waitOnParentShardResult := Some ErrSequenceIDNotFound\<rparr>) =
     ([WaitOnParentShard, GetStartingPosition,
       GetShardIterator \<lparr> in_ShardId = ''shard-1'', in_ShardIteratorType = TRIM_HORIZON,
         in_StartingSequenceNumber = None, in_Timestamp = None, in_StreamName = ''stream'' \<rparr>,
       Initialize ''shard-1'' ''TRIM_HORIZON'',
       GetRecords \<lparr> Limit = 10000, ShardIterator = Some ''iterator-0'' \<rparr>,
       ProcessRecords 0 [example_record] (Some 0),
       Shutdown TERMINATE,
       ReleaseLease ''shard-1''],
      Returned None)
   \<and> getRecords 0 example_consumer
     ((example_env [example_cycle 0 (Inr closed_response)])
        \<lparr>waitOnParentShardResult := Some (OtherError ''store unreachable'')\<rparr>) =
     ([WaitOnParentShard, ReleaseLease ''shard-1''],
      Returned (Some (OtherError ''store unreachable'')))"
proof -
  let ?env = "example_env [example_cycle 0 (Inr closed_response)]"
  have w: "waitOnParentShardResult (?env\<lparr>waitOnParentShardResult := Some e\<rparr>) = Some e" for e
    by simp
  have u: "?env\<lparr>waitOnParentShardResult := Some e\<rparr>\<lparr>waitOnParentShardResult := None\<rparr> = ?env" for e
    by (simp add: example_env_def)
  have n: "shardID example_consumer = ''shard-1''"
    by (simp add: example_defs)
  show ?thesis
    using parent_wait_errors [OF w [of ErrSequenceIDNotFound], of 0 example_consumer]
      parent_wait_errors [OF w [of "OtherError ''store unreachable''"], of 0 example_consumer]
      example_closed_shard_run u n
    by simp
qed

subsection \<open>The closed shard\<close>

lemma iteration_closed_shard:
  assumes "leaseHeld sc c"
    and "getRecordsResult c = Inr getResp" and "NextShardIterator getResp = None"
  shows "\<exists>pre. iteration conv sc st c =
            (pre @ [GetRecords \<lparr> Limit = int32 (MaxRecords (kclConfig sc)),
                                   ShardIterator = shardIterator st \<rparr>,
                    ProcessRecords (getRecordsStartTime c) (Records getResp)
                      (MillisBehindLatest getResp),
                    Shutdown TERMINATE],
             Return None)
          \<and> filter is_GetRecords pre = [] \<and> filter is_Shutdown pre = []"
proof -
  obtain renewal where r: "refreshLease sc c = (renewal, None)"
    using refreshLease_held [OF assms(1)] by (cases "refreshLease sc c") simp
  obtain limiter st1 where l: "rateLimit st c = (limiter, st1)" by (cases "rateLimit st c")
  have e: "filter is_GetRecords renewal = []" "filter is_Shutdown renewal = []"
    "filter is_GetRecords limiter = []" "filter is_Shutdown limiter = []"
    using refreshLease_events [of sc c] rateLimit_events [of st c] r l by simp_all
  have "iteration conv sc st c =
            ((renewal @ limiter) @ [GetRecords \<lparr> Limit = int32 (MaxRecords (kclConfig sc)),
                                   ShardIterator = shardIterator st \<rparr>,
                    ProcessRecords (getRecordsStartTime c) (Records getResp)
                      (MillisBehindLatest getResp),
                    Shutdown TERMINATE],
             Return None)"
    using r l assms(2,3) by (simp add: iteration_def fetchSucceeded_def Let_def)
  with e show ?thesis by (intro exI [of _ "renewal @ limiter"]) simp
qed

text \<open>
  Claim C7. A pass whose fetch succeeds with a response without a continuation iterator
  hands the batch to \<^verbatim>\<open>processRecords\<close>, then notifies the record processor of the
  shutdown with the reason \<^verbatim>\<open>TERMINATE\<close>, and the loop returns \<^verbatim>\<open>nil\<close>; these are
  the last events of the pass, and the pass has one fetch and one shutdown notification.
  In particular, when this is the first pass of a call that gets as far as the loop, the call
  returns \<^verbatim>\<open>nil\<close> after exactly one fetch and exactly one shutdown notification, and
  the last thing it does is to release the lease.
\<close>

theorem closed_shard_terminates:
  assumes "leaseHeld sc c"
    and "getRecordsResult c = Inr getResp" and "NextShardIterator getResp = None"
  shows "(\<exists>pre. loop conv sc st (c # cs) =
            (pre @ [GetRecords \<lparr> Limit = int32 (MaxRecords (kclConfig sc)),
                                   ShardIterator = shardIterator st \<rparr>,
                    ProcessRecords (getRecordsStartTime c) (Records getResp)
                      (MillisBehindLatest getResp),
                    Shutdown TERMINATE],
             Return None)
          \<and> filter is_GetRecords pre = [] \<and> filter is_Shutdown pre = [])
       \<and> (reachesLoop sc env it \<and> cycles env = c # cs \<longrightarrow>
            (\<exists>tr. getRecords conv sc env = (tr, Returned None)
               \<and> filter is_GetRecords tr
                   = [GetRecords \<lparr> Limit = int32 (MaxRecords (kclConfig sc)), ShardIterator = it \<rparr>]
               \<and> filter is_Shutdown tr = [Shutdown TERMINATE]
               \<and> last tr = ReleaseLease (shardID sc)))"
proof (intro conjI impI)
  show "\<exists>pre. loop conv sc st (c # cs) =
            (pre @ [GetRecords \<lparr> Limit = int32 (MaxRecords (kclConfig sc)),
                                   ShardIterator = shardIterator st \<rparr>,
                    ProcessRecords (getRecordsStartTime c) (Records getResp)
                      (MillisBehindLatest getResp),
                    Shutdown TERMINATE],
             Return None)
          \<and> filter is_GetRecords pre = [] \<and> filter is_Shutdown pre = []"
    using iteration_closed_shard [OF assms, of conv st] by auto
next
  assume a: "reachesLoop sc env it \<and> cycles env = c # cs"
  obtain pre where i: "iteration conv sc (initialState it) c =
            (pre @ [GetRecords \<lparr> Limit = int32 (MaxRecords (kclConfig sc)),
                                   ShardIterator = it \<rparr>,
                    ProcessRecords (getRecordsStartTime c) (Records getResp)
                      (MillisBehindLatest getResp),
                    Shutdown TERMINATE],
             Return None)"
    and p: "filter is_GetRecords pre = []" "filter is_Shutdown pre = []"
    using iteration_closed_shard [OF assms, of conv "initialState it"]
    by (auto simp add: initialState_def)
  have l: "loop conv sc (initialState it) (cycles env) =
            (pre @ [GetRecords \<lparr> Limit = int32 (MaxRecords (kclConfig sc)),
                                   ShardIterator = it \<rparr>,
                    ProcessRecords (getRecordsStartTime c) (Records getResp)
                      (MillisBehindLatest getResp),
                    Shutdown TERMINATE],
             Return None)"
    using a i by simp
  have g: "filter is_GetRecords (fst (getShardIterator sc env)) = []"
    "filter is_Shutdown (fst (getShardIterator sc env)) = []"
    by (simp_all add: getShardIterator_def Let_def split: sum.split)
  show "\<exists>tr. getRecords conv sc env = (tr, Returned None)
               \<and> filter is_GetRecords tr
                   = [GetRecords \<lparr> Limit = int32 (MaxRecords (kclConfig sc)), ShardIterator = it \<rparr>]
               \<and> filter is_Shutdown tr = [Shutdown TERMINATE]
               \<and> last tr = ReleaseLease (shardID sc)"
    using getRecords_of_loop [OF _ l] a p g by simp
qed

theorem closed_shard_terminates_witness:
  "leaseHeld example_consumer (example_cycle 0 (Inr closed_response))
   \<and> getRecordsResult (example_cycle 0 (Inr closed_response)) = Inr closed_response
   \<and> NextShardIterator closed_response = None
   \<and> reachesLoop example_consumer (example_env [example_cycle 0 (Inr closed_response)])
       (Some ''iterator-0'')
   \<and> (\<exists>tr. getRecords 0 example_consumer (example_env [example_cycle 0 (Inr closed_response)])
             = (tr, Returned None)
          \<and> filter is_GetRecords tr
              = [GetRecords \<lparr> Limit = 10000, ShardIterator = Some ''iterator-0'' \<rparr>]
          \<and> filter is_Shutdown tr = [Shutdown TERMINATE]
          \<and> last tr = ReleaseLease ''shard-1'')"
proof -
  let ?c = "example_cycle 0 (Inr closed_response)"
  have h1: "leaseHeld example_consumer ?c"
    by (simp add: leaseHeld_def model_defs example_defs)
  have h2: "getRecordsResult ?c = Inr closed_response"
    and h3: "NextShardIterator closed_response = None"
    by (simp_all add: example_defs)
  have n: "shardID example_consumer = ''shard-1''"
    "int32 (MaxRecords (kclConfig example_consumer)) = 10000"
    "cycles (example_env cs) = cs" for cs
    by (simp_all add: example_defs int32_def)
  show ?thesis
    using closed_shard_terminates [where env = "example_env [?c]" and it = "Some ''iterator-0''"
        and cs = "[]" and conv = 0 and st = "initialState (Some ''iterator-0'')", OF h1 h2 h3]
      example_reachesLoop h1 h2 h3 n
    by simp
qed

subsection \<open>The retry budget\<close>

lemma fetchFailed_retriable:
  assumes "retriable err"
  shows "snd (fetchFailed conv sc st c err) =
           (if MaxRetryCount (kclConfig sc) <s retriedErrors st + 1 then Return (Some err)
            else Continue (st\<lparr>retriedErrors := retriedErrors st + 1\<rparr>))"
  using assms by (auto simp add: fetchFailed_def retriable_def Let_def)

lemma fetchSucceeded_resets:
  "snd (fetchSucceeded sc st c getResp) = Continue st1 \<Longrightarrow> retriedErrors st1 = 0"
  by (auto simp add: fetchSucceeded_def Let_def split: if_splits)

lemma iteration_failsRetriably:
  assumes "failsRetriably sc c"
  shows "\<exists>err. fetchError c = Some err \<and> snd (iteration conv sc st c) =
           (if MaxRetryCount (kclConfig sc) <s retriedErrors st + 1 then Return (Some err)
            else Continue ((snd (rateLimit st c))\<lparr>retriedErrors := retriedErrors st + 1\<rparr>))"
proof -
  from assms obtain err where e: "getRecordsResult c = Inl err" and r: "retriable err"
    and h: "leaseHeld sc c"
    by (cases "getRecordsResult c") (simp_all add: failsRetriably_def)
  show ?thesis
    using iteration_fetch [OF h, of conv st] e fetchFailed_retriable [OF r, of conv sc "snd (rateLimit st c)" c]
    by (simp add: rateLimit_retriedErrors fetchError_def)
qed

lemma loop_all_failing:
  assumes "list_all (failsRetriably sc) cs"
  shows "case snd (loop conv sc st cs) of
           Continue st1 \<Rightarrow> retriedErrors st1 = retriedErrors st + of_nat (length cs)
         | Return r \<Rightarrow>
             (\<exists>k<length cs. r = fetchError (cs ! k) \<and> r \<noteq> None
                \<and> MaxRetryCount (kclConfig sc) <s retriedErrors st + of_nat (Suc k))"
  using assms
proof (induction cs arbitrary: st)
  case Nil
  show ?case by simp
next
  case (Cons c cs)
  from Cons.prems have fc: "failsRetriably sc c" and fcs: "list_all (failsRetriably sc) cs"
    by simp_all
  obtain err where e: "fetchError c = Some err"
    and i: "snd (iteration conv sc st c) =
           (if MaxRetryCount (kclConfig sc) <s retriedErrors st + 1 then Return (Some err)
            else Continue ((snd (rateLimit st c))\<lparr>retriedErrors := retriedErrors st + 1\<rparr>))"
    using iteration_failsRetriably [OF fc, of conv st] by blast
  obtain evs out where io: "iteration conv sc st c = (evs, out)"
    by (cases "iteration conv sc st c")
  show ?case
  proof (cases "MaxRetryCount (kclConfig sc) <s retriedErrors st + 1")
    case True
    with i io have "out = Return (Some err)" by simp
    with io have l: "snd (loop conv sc st (c # cs)) = Return (Some err)" by simp
    have "\<exists>k<length (c # cs). Some err = fetchError ((c # cs) ! k) \<and> Some err \<noteq> None
            \<and> MaxRetryCount (kclConfig sc) <s retriedErrors st + of_nat (Suc k)"
      using e True by (intro exI [of _ 0]) simp
    with l show ?thesis by simp
  next
    case False
    let ?st1 = "(snd (rateLimit st c))\<lparr>retriedErrors := retriedErrors st + 1\<rparr>"
    from False i io have o: "out = Continue ?st1" by simp
    have s: "snd (loop conv sc st (c # cs)) = snd (loop conv sc ?st1 cs)"
      using io o by (simp split: prod.split)
    have r1: "retriedErrors ?st1 = retriedErrors st + 1" by simp
    show ?thesis
    proof (cases "snd (loop conv sc ?st1 cs)")
      case (Continue st2)
      with Cons.IH [OF fcs, of ?st1] s show ?thesis by (simp add: r1)
    next
      case (Return r)
      with Cons.IH [OF fcs, of ?st1] obtain k where k: "k < length cs"
        "r = fetchError (cs ! k)" "r \<noteq> None"
        "MaxRetryCount (kclConfig sc) <s retriedErrors ?st1 + of_nat (Suc k)"
        by auto
      have "Suc k < length (c # cs)" using k(1) by simp
      moreover have "r = fetchError ((c # cs) ! Suc k)" using k(2) by simp
      moreover have "MaxRetryCount (kclConfig sc) <s retriedErrors st + of_nat (Suc (Suc k))"
      proof -
        have eq: "retriedErrors ?st1 + of_nat (Suc k) = retriedErrors st + of_nat (Suc (Suc k))"
          by (simp add: algebra_simps)
        from k(4) [unfolded eq] show ?thesis .
      qed
      ultimately have "\<exists>j<length (c # cs). r = fetchError ((c # cs) ! j) \<and> r \<noteq> None
            \<and> MaxRetryCount (kclConfig sc) <s retriedErrors st + of_nat (Suc j)"
        using k(3) by (intro exI [of _ "Suc k"]) simp
      with s Return show ?thesis by simp
    qed
  qed
qed


lemma iteration_fetch_succeeded_resets:
  assumes "leaseHeld sc c" and "getRecordsResult c = Inr getResp"
    and "snd (iteration conv sc st c) = Continue st1"
  shows "retriedErrors st1 = 0"
  using iteration_fetch [OF assms(1), of conv st] assms(2,3)
    fetchSucceeded_resets [of sc "snd (rateLimit st c)" c getResp st1]
  by simp

lemma fetchSucceeded_outcome:
  "snd (fetchSucceeded sc st c getResp) =
     (if NextShardIterator getResp = None \<or> stopSignalled c then Return None
      else Continue
        ((if transactionNum st + 1 = 1
          then st\<lparr>retriedErrors := 0, transactionNum := transactionNum st + 1,
                   firstTransactionTime := getRecordsTransactionTime c\<rparr>
          else st\<lparr>retriedErrors := 0, transactionNum := transactionNum st + 1\<rparr>)
           \<lparr>shardIterator := NextShardIterator getResp\<rparr>))"
  by (simp add: fetchSucceeded_def Let_def)

lemma iteration_fetch_succeeded:
  assumes "leaseHeld sc c" and "getRecordsResult c = Inr getResp"
  shows "if NextShardIterator getResp = None \<or> stopSignalled c
         then snd (iteration conv sc st c) = Return None
         else (\<exists>st1. snd (iteration conv sc st c) = Continue st1
                 \<and> retriedErrors st1 = 0
                 \<and> shardIterator st1 = NextShardIterator getResp)"
  using iteration_fetch [OF assms(1), of conv st] assms(2)
  by (simp add: fetchSucceeded_outcome)

lemma loop_success_then_failing:
  assumes "leaseHeld sc c" and "getRecordsResult c = Inr getResp"
    and "NextShardIterator getResp \<noteq> None" and "\<not> stopSignalled c"
    and "loop conv sc st0 cs0 = (evs0, Continue st)"
    and "list_all (failsRetriably sc) ds"
  shows "case snd (loop conv sc st0 (cs0 @ c # ds)) of
           Continue st2 \<Rightarrow> retriedErrors st2 = of_nat (length ds)
         | Return r \<Rightarrow>
             (\<exists>k<length ds. r = fetchError (ds ! k) \<and> r \<noteq> None
                \<and> MaxRetryCount (kclConfig sc) <s of_nat (Suc k))"
proof -
  obtain st1 where i: "snd (iteration conv sc st c) = Continue st1" and z: "retriedErrors st1 = 0"
    using iteration_fetch_succeeded [where conv = conv and st = st, OF assms(1,2)] assms(3,4) by auto
  obtain evs where ie: "iteration conv sc st c = (evs, Continue st1)"
    using i by (cases "iteration conv sc st c") simp
  have "snd (loop conv sc st0 (cs0 @ c # ds)) = snd (loop conv sc st1 ds)"
    using assms(5) ie by (simp add: loop_append split: prod.split)
  then show ?thesis
    using loop_all_failing [where conv = conv and st = st1, OF assms(6)] z
    by (cases "snd (loop conv sc st1 ds)") simp_all
qed


text \<open>
  Claim C4. The two retriable classes of fetch errors (provisioned throughput exceeded and
  KMS throttling) count on the one variable \<^verbatim>\<open>retriedErrors\<close>:
  \<^item> a pass whose fetch fails with an error of either class adds one to the counter; if the
    new value is greater than \<^verbatim>\<open>MaxRetryCount\<close> the loop returns that error, otherwise
    the loop goes on with the new value;
  \<^item> a pass whose fetch succeeds sets the counter to zero, whatever it was: unless the shard
    is closed or the stop signal is raised, in which cases the loop returns \<^verbatim>\<open>nil\<close>,
    the loop goes on with the counter at zero and with the continuation iterator;
  \<^item> so after a successful fetch, whatever failures came before it, the retriable failures
    that follow are counted from zero again;
  \<^item> over any sequence of passes that fail with retriable errors, in any mix of the two
    classes, the counter has grown by the number of passes while the loop goes on, and when
    the loop returns, it returns the error of the pass that took the counter over the
    maximum;
  \<^item> when the loop returns, so does the method, with the same value, and the last thing it
    does is to release the lease.
\<close>

theorem shared_retry_counter:
  assumes "leaseHeld sc c"
  shows "(\<forall>err. getRecordsResult c = Inl err \<and> retriable err \<longrightarrow>
            (if MaxRetryCount (kclConfig sc) <s retriedErrors st + 1
             then snd (iteration conv sc st c) = Return (Some err)
             else (\<exists>st1. snd (iteration conv sc st c) = Continue st1
                     \<and> retriedErrors st1 = retriedErrors st + 1)))
       \<and> (\<forall>getResp st1. getRecordsResult c = Inr getResp
              \<and> snd (iteration conv sc st c) = Continue st1 \<longrightarrow> retriedErrors st1 = 0)
       \<and> (\<forall>getResp. getRecordsResult c = Inr getResp \<longrightarrow>
            (if NextShardIterator getResp = None \<or> stopSignalled c
             then snd (iteration conv sc st c) = Return None
             else (\<exists>st1. snd (iteration conv sc st c) = Continue st1
                     \<and> retriedErrors st1 = 0
                     \<and> shardIterator st1 = NextShardIterator getResp)))
       \<and> (\<forall>getResp. getRecordsResult c = Inr getResp
              \<and> NextShardIterator getResp \<noteq> None \<and> \<not> stopSignalled c
              \<and> loop conv sc st0 cs0 = (evs0, Continue st)
              \<and> list_all (failsRetriably sc) ds \<longrightarrow>
            (case snd (loop conv sc st0 (cs0 @ c # ds)) of
               Continue st2 \<Rightarrow> retriedErrors st2 = of_nat (length ds)
             | Return r \<Rightarrow>
                 (\<exists>k<length ds. r = fetchError (ds ! k) \<and> r \<noteq> None
                    \<and> MaxRetryCount (kclConfig sc) <s of_nat (Suc k))))
       \<and> (list_all (failsRetriably sc) cs \<longrightarrow>
            (case snd (loop conv sc st cs) of
               Continue st1 \<Rightarrow> retriedErrors st1 = retriedErrors st + of_nat (length cs)
             | Return r \<Rightarrow>
                 (\<exists>k<length cs. r = fetchError (cs ! k) \<and> r \<noteq> None
                    \<and> MaxRetryCount (kclConfig sc) <s retriedErrors st + of_nat (Suc k))))
       \<and> (reachesLoop sc env it \<and> snd (loop conv sc (initialState it) (cycles env)) = Return r
            \<longrightarrow> (\<exists>tr. getRecords conv sc env = (tr, Returned r)
                    \<and> last tr = ReleaseLease (shardID sc)))"
proof (intro conjI allI impI)
  fix err
  assume a: "getRecordsResult c = Inl err \<and> retriable err"
  then have f: "failsRetriably sc c" using assms by (simp add: failsRetriably_def)
  have e: "fetchError c = Some err" using a by (simp add: fetchError_def)
  show "if MaxRetryCount (kclConfig sc) <s retriedErrors st + 1
        then snd (iteration conv sc st c) = Return (Some err)
        else (\<exists>st1. snd (iteration conv sc st c) = Continue st1
                \<and> retriedErrors st1 = retriedErrors st + 1)"
    using iteration_failsRetriably [OF f, of conv st] e by auto
next
  fix getResp st1
  assume "getRecordsResult c = Inr getResp \<and> snd (iteration conv sc st c) = Continue st1"
  then show "retriedErrors st1 = 0"
    using iteration_fetch_succeeded_resets [OF assms, of getResp conv st st1] by simp
next
  fix getResp
  assume "getRecordsResult c = Inr getResp"
  then show "if NextShardIterator getResp = None \<or> stopSignalled c
             then snd (iteration conv sc st c) = Return None
             else (\<exists>st1. snd (iteration conv sc st c) = Continue st1
                     \<and> retriedErrors st1 = 0
                     \<and> shardIterator st1 = NextShardIterator getResp)"
    by (rule iteration_fetch_succeeded [OF assms])
next
  fix getResp
  assume a: "getRecordsResult c = Inr getResp
              \<and> NextShardIterator getResp \<noteq> None \<and> \<not> stopSignalled c
              \<and> loop conv sc st0 cs0 = (evs0, Continue st)
              \<and> list_all (failsRetriably sc) ds"
  then show "case snd (loop conv sc st0 (cs0 @ c # ds)) of
               Continue st2 \<Rightarrow> retriedErrors st2 = of_nat (length ds)
             | Return r \<Rightarrow>
                 (\<exists>k<length ds. r = fetchError (ds ! k) \<and> r \<noteq> None
                    \<and> MaxRetryCount (kclConfig sc) <s of_nat (Suc k))"
    using loop_success_then_failing [OF assms, of getResp conv st0 cs0 evs0 st ds] by simp
next
  assume "list_all (failsRetriably sc) cs"
  then show "case snd (loop conv sc st cs) of
               Continue st1 \<Rightarrow> retriedErrors st1 = retriedErrors st + of_nat (length cs)
             | Return r \<Rightarrow>
                 (\<exists>k<length cs. r = fetchError (cs ! k) \<and> r \<noteq> None
                    \<and> MaxRetryCount (kclConfig sc) <s retriedErrors st + of_nat (Suc k))"
    by (rule loop_all_failing)
next
  assume a: "reachesLoop sc env it \<and> snd (loop conv sc (initialState it) (cycles env)) = Return r"
  obtain evs where l: "loop conv sc (initialState it) (cycles env) = (evs, Return r)"
    using a by (cases "loop conv sc (initialState it) (cycles env)") simp
  show "\<exists>tr. getRecords conv sc env = (tr, Returned r) \<and> last tr = ReleaseLease (shardID sc)"
    using getRecords_of_loop [OF _ l] a by simp
qed

lemma example_alternating_run:
  "loop 0 example_consumer (initialState (Some ''iterator-0''))
     [throttled_cycle (ProvisionedThroughputExceededException ''first''),
      throttled_cycle (KMSThrottlingException ''second''),
      throttled_cycle (ProvisionedThroughputExceededException ''third'')] =
     ([GetRecords \<lparr> Limit = 10000, ShardIterator = Some ''iterator-0'' \<rparr>,
       Sleep Cooldown 1000000000,
       GetRecords \<lparr> Limit = 10000, ShardIterator = Some ''iterator-0'' \<rparr>,
       Sleep Backoff 400000000,
       GetRecords \<lparr> Limit = 10000, ShardIterator = Some ''iterator-0'' \<rparr>],
      Return (Some (ProvisionedThroughputExceededException ''third'')))"
  by (simp add: model_defs example_defs)

lemma example_two_failures:
  "loop 0 example_consumer (initialState (Some ''iterator-0''))
     [throttled_cycle (ProvisionedThroughputExceededException ''first''),
      throttled_cycle (KMSThrottlingException ''second'')] =
     ([GetRecords \<lparr> Limit = 10000, ShardIterator = Some ''iterator-0'' \<rparr>,
       Sleep Cooldown 1000000000,
       GetRecords \<lparr> Limit = 10000, ShardIterator = Some ''iterator-0'' \<rparr>,
       Sleep Backoff 400000000],
      Continue \<lparr> shardIterator = Some ''iterator-0'', retriedErrors = 2,
        transactionNum = 0, firstTransactionTime = 0 \<rparr>)"
  by (simp add: model_defs example_defs)

lemma example_success_resets:
  "iteration 0 example_consumer
     \<lparr> shardIterator = Some ''iterator-0'', retriedErrors = 2,
       transactionNum = 0, firstTransactionTime = 0 \<rparr>
     (example_cycle 0 (Inr open_response)) =
     ([GetRecords \<lparr> Limit = 10000, ShardIterator = Some ''iterator-0'' \<rparr>,
       ProcessRecords 0 [example_record] (Some 0), PollStop],
      Continue \<lparr> shardIterator = Some ''iterator-1'', retriedErrors = 0,
        transactionNum = 1, firstTransactionTime = 0 \<rparr>)"
  by (simp add: model_defs example_defs)

lemma example_recovering_run:
  "loop 0 example_consumer (initialState (Some ''iterator-0''))
     ([throttled_cycle (ProvisionedThroughputExceededException ''first''),
       throttled_cycle (KMSThrottlingException ''second'')]
      @ example_cycle 0 (Inr open_response)
      # [throttled_cycle (ProvisionedThroughputExceededException ''third''),
         throttled_cycle (KMSThrottlingException ''fourth''),
         throttled_cycle (ProvisionedThroughputExceededException ''fifth'')]) =
     ([GetRecords \<lparr> Limit = 10000, ShardIterator = Some ''iterator-0'' \<rparr>,
       Sleep Cooldown 1000000000,
       GetRecords \<lparr> Limit = 10000, ShardIterator = Some ''iterator-0'' \<rparr>,
       Sleep Backoff 400000000,
       GetRecords \<lparr> Limit = 10000, ShardIterator = Some ''iterator-0'' \<rparr>,
       ProcessRecords 0 [example_record] (Some 0), PollStop,
       GetRecords \<lparr> Limit = 10000, ShardIterator = Some ''iterator-1'' \<rparr>,
       Sleep Cooldown 1000000000,
       GetRecords \<lparr> Limit = 10000, ShardIterator = Some ''iterator-1'' \<rparr>,
       Sleep Backoff 400000000,
       GetRecords \<lparr> Limit = 10000, ShardIterator = Some ''iterator-1'' \<rparr>],
      Return (Some (ProvisionedThroughputExceededException ''fifth'')))"
  by (simp add: model_defs example_defs)

theorem shared_retry_counter_witness:
  "leaseHeld example_consumer (throttled_cycle (KMSThrottlingException ''second''))
   \<and> list_all (failsRetriably example_consumer)
        [throttled_cycle (ProvisionedThroughputExceededException ''first''),
         throttled_cycle (KMSThrottlingException ''second''),
         throttled_cycle (ProvisionedThroughputExceededException ''third'')]
   \<and> reachesLoop example_consumer
        (example_env [throttled_cycle (ProvisionedThroughputExceededException ''first''),
           throttled_cycle (KMSThrottlingException ''second''),
           throttled_cycle (ProvisionedThroughputExceededException ''third'')])
        (Some ''iterator-0'')
   \<and> snd (loop 0 example_consumer (initialState (Some ''iterator-0''))
        [throttled_cycle (ProvisionedThroughputExceededException ''first''),
         throttled_cycle (KMSThrottlingException ''second''),
         throttled_cycle (ProvisionedThroughputExceededException ''third'')])
       = Return (Some (ProvisionedThroughputExceededException ''third''))
   \<and> (\<exists>tr. getRecords 0 example_consumer
        (example_env [throttled_cycle (ProvisionedThroughputExceededException ''first''),
           throttled_cycle (KMSThrottlingException ''second''),
           throttled_cycle (ProvisionedThroughputExceededException ''third'')])
         = (tr, Returned (Some (ProvisionedThroughputExceededException ''third'')))
       \<and> last tr = ReleaseLease ''shard-1'')
   \<and> leaseHeld example_consumer (example_cycle 0 (Inr open_response))
   \<and> getRecordsResult (example_cycle 0 (Inr open_response)) = Inr open_response
   \<and> NextShardIterator open_response = Some ''iterator-1''
   \<and> \<not> stopSignalled (example_cycle 0 (Inr open_response))
   \<and> snd (loop 0 example_consumer (initialState (Some ''iterator-0''))
        [throttled_cycle (ProvisionedThroughputExceededException ''first''),
         throttled_cycle (KMSThrottlingException ''second'')])
       = Continue \<lparr> shardIterator = Some ''iterator-0'', retriedErrors = 2,
           transactionNum = 0, firstTransactionTime = 0 \<rparr>
   \<and> snd (iteration 0 example_consumer
        \<lparr> shardIterator = Some ''iterator-0'', retriedErrors = 2,
          transactionNum = 0, firstTransactionTime = 0 \<rparr>
        (example_cycle 0 (Inr open_response)))
       = Continue \<lparr> shardIterator = Some ''iterator-1'', retriedErrors = 0,
           transactionNum = 1, firstTransactionTime = 0 \<rparr>
   \<and> list_all (failsRetriably example_consumer)
        [throttled_cycle (ProvisionedThroughputExceededException ''third''),
         throttled_cycle (KMSThrottlingException ''fourth''),
         throttled_cycle (ProvisionedThroughputExceededException ''fifth'')]
   \<and> snd (loop 0 example_consumer (initialState (Some ''iterator-0''))
        ([throttled_cycle (ProvisionedThroughputExceededException ''first''),
          throttled_cycle (KMSThrottlingException ''second'')]
         @ example_cycle 0 (Inr open_response)
         # [throttled_cycle (ProvisionedThroughputExceededException ''third''),
            throttled_cycle (KMSThrottlingException ''fourth''),
            throttled_cycle (ProvisionedThroughputExceededException ''fifth'')]))
       = Return (Some (ProvisionedThroughputExceededException ''fifth''))"
proof -
  let ?three = "[throttled_cycle (ProvisionedThroughputExceededException ''first''),
         throttled_cycle (KMSThrottlingException ''second''),
         throttled_cycle (ProvisionedThroughputExceededException ''third'')]"
  let ?before = "[throttled_cycle (ProvisionedThroughputExceededException ''first''),
         throttled_cycle (KMSThrottlingException ''second'')]"
  let ?after = "[throttled_cycle (ProvisionedThroughputExceededException ''third''),
         throttled_cycle (KMSThrottlingException ''fourth''),
         throttled_cycle (ProvisionedThroughputExceededException ''fifth'')]"
  let ?st = "\<lparr> shardIterator = Some ''iterator-0'', retriedErrors = 2,
          transactionNum = 0, firstTransactionTime = 0 \<rparr>"
  let ?ok = "example_cycle 0 (Inr open_response)"
  have h: "leaseHeld example_consumer (throttled_cycle err)" for err
    by (simp add: leaseHeld_def model_defs example_defs)
  have f: "list_all (failsRetriably example_consumer) ?three"
    by (simp add: failsRetriably_def h) (simp add: retriable_def example_defs)
  have fd: "list_all (failsRetriably example_consumer) ?after"
    by (simp add: failsRetriably_def h) (simp add: retriable_def example_defs)
  have n: "shardID example_consumer = ''shard-1''" "cycles (example_env cs) = cs" for cs
    by (simp_all add: example_defs)
  have k: "leaseHeld example_consumer ?ok"
    by (simp add: leaseHeld_def model_defs example_defs)
  have o: "getRecordsResult ?ok = Inr open_response"
    "NextShardIterator open_response = Some ''iterator-1''" "\<not> stopSignalled ?ok"
    by (simp_all add: example_defs)
  have t1: "\<exists>tr. getRecords 0 example_consumer (example_env ?three)
         = (tr, Returned (Some (ProvisionedThroughputExceededException ''third'')))
       \<and> last tr = ReleaseLease ''shard-1''"
    using shared_retry_counter [where env = "example_env ?three" and it = "Some ''iterator-0''"
        and conv = 0 and r = "Some (ProvisionedThroughputExceededException ''third'')"
        and st = ?st and ?st0.0 = "initialState (Some ''iterator-0'')" and ?cs0.0 = ?before
        and ds = ?after and cs = ?three and ?evs0.0 = "[]",
        OF h [of "KMSThrottlingException ''second''"], THEN conjunct2, THEN conjunct2,
        THEN conjunct2, THEN conjunct2, THEN conjunct2]
      example_reachesLoop example_alternating_run n
    by simp
  have t2: "\<exists>st1. snd (iteration 0 example_consumer ?st ?ok) = Continue st1
              \<and> retriedErrors st1 = 0 \<and> shardIterator st1 = Some ''iterator-1''"
    using shared_retry_counter [where conv = 0 and st = ?st
        and ?st0.0 = "initialState (Some ''iterator-0'')" and ?cs0.0 = ?before and ds = ?after
        and cs = "[]" and ?evs0.0 = "[]" and env = "example_env []" and it = None and r = None,
        OF k, THEN conjunct2, THEN conjunct2, THEN conjunct1, rule_format, OF o(1)] o
    by simp
  show ?thesis
    using t1 t2 h f fd k o example_reachesLoop example_alternating_run example_two_failures
      example_success_resets example_recovering_run
    by simp
qed

subsection \<open>The backoff after KMS throttling\<close>

lemma pow2_le:
  assumes "n \<le> 36"
  shows "(2::int) ^ n \<le> 68719476736"
proof -
  have "(2::int) ^ n \<le> 2 ^ 36" using assms by (intro power_increasing) simp_all
  then show ?thesis by simp
qed

lemma kmsBackoff_exact:
  assumes "1 \<le> n" and "n \<le> 36"
  shows "sint (kmsBackoff conv (of_nat n)) = 100000000 * 2 ^ n"
proof -
  have s: "sint (of_nat n :: 64 word) = int n"
    using assms by (intro sint_word64_of_nat) simp
  have p: "(0::int) < 2 ^ n" by simp
  have b: "(2::int) ^ n \<le> 68719476736" using assms(2) by (rule pow2_le)
  have "kmsBackoff conv (of_nat n) = word_of_int (2 ^ n * 100) * 1000000"
    using s assms by (simp add: kmsBackoff_def exp2_times_100_def Millisecond_def)
  also have "\<dots> = word_of_int (100000000 * 2 ^ n)"
    by simp
  finally have "sint (kmsBackoff conv (of_nat n)) = sint (word_of_int (100000000 * 2 ^ n) :: 64 word)"
    by simp
  also have "\<dots> = 100000000 * 2 ^ n"
    using p b by (intro sint_word64_of_int) linarith+
  finally show ?thesis .
qed


lemma rateLimit_no_backoff: "sleeps Backoff (fst (rateLimit st c)) = []"
  by (simp add: rateLimit_def Let_def)

lemma one_error_class:
  "as_KMSThrottling err \<Longrightarrow> \<not> as_ProvisionedThroughputExceeded err"
  by (induction err) simp_all

lemma fetchFailed_kms:
  assumes "as_KMSThrottling err"
    and "\<not> MaxRetryCount (kclConfig sc) <s retriedErrors st + 1"
  shows "fetchFailed conv sc st c err =
           ([Sleep Backoff (kmsBackoff conv (retriedErrors st + 1))],
            Continue (st\<lparr>retriedErrors := retriedErrors st + 1\<rparr>))"
  using assms one_error_class [OF assms(1)] by (simp add: fetchFailed_def Let_def)

lemma iteration_kmsThrottled:
  assumes "kmsThrottled sc c" and "retriedErrors st = of_nat m" and "m < 36"
    and "int (Suc m) \<le> sint (MaxRetryCount (kclConfig sc))"
  shows "\<exists>pre st1. iteration conv sc st c =
             (pre @ [Sleep Backoff (kmsBackoff conv (of_nat (Suc m)))], Continue st1)
           \<and> sleeps Backoff pre = [] \<and> retriedErrors st1 = of_nat (Suc m)"
proof -
  from assms(1) obtain err where e: "getRecordsResult c = Inl err"
    and k: "as_KMSThrottling err"
    and h: "leaseHeld sc c"
    by (cases "getRecordsResult c") (simp_all add: kmsThrottled_def)
  let ?st = "snd (rateLimit st c)"
  have r: "retriedErrors ?st + 1 = of_nat (Suc m)"
    using assms(2) by (simp add: rateLimit_retriedErrors)
  have "sint (of_nat (Suc m) :: 64 word) = int (Suc m)"
    using assms(3) by (intro sint_word64_of_nat) simp
  then have "sint (retriedErrors ?st + 1) = int (Suc m)"
    by (simp only: r)
  then have n: "\<not> MaxRetryCount (kclConfig sc) <s retriedErrors ?st + 1"
    using assms(4) unfolding word_sless_alt by linarith
  let ?pre = "fst (refreshLease sc c) @ fst (rateLimit st c)
                @ [GetRecords \<lparr> Limit = int32 (MaxRecords (kclConfig sc)),
                                  ShardIterator = shardIterator st \<rparr>]"
  have "iteration conv sc st c =
          (?pre @ [Sleep Backoff (kmsBackoff conv (of_nat (Suc m)))],
           Continue (?st\<lparr>retriedErrors := retriedErrors ?st + 1\<rparr>))"
    using iteration_fetch [OF h, of conv st] e fetchFailed_kms [OF k n, of conv c] r
    by simp
  moreover have "sleeps Backoff ?pre = []"
    by (simp add: sleeps_append refreshLease_sleeps rateLimit_no_backoff)
  moreover have "retriedErrors (?st\<lparr>retriedErrors := retriedErrors ?st + 1\<rparr>) = of_nat (Suc m)"
    using r by simp
  ultimately show ?thesis by blast
qed

lemma loop_kmsThrottled:
  assumes "list_all (kmsThrottled sc) cs" and "retriedErrors st = of_nat m"
    and "m + length cs \<le> 36"
    and "int (m + length cs) \<le> sint (MaxRetryCount (kclConfig sc))"
  shows "\<exists>evs st1. loop conv sc st cs = (evs, Continue st1)
           \<and> retriedErrors st1 = of_nat (m + length cs)
           \<and> sleeps Backoff evs = map (\<lambda>k. 100000000 * 2 ^ k) [Suc m ..< Suc (m + length cs)]
           \<and> (cs = [] \<or> last evs = Sleep Backoff (kmsBackoff conv (of_nat (m + length cs))))"
  using assms
proof (induction cs arbitrary: st m)
  case Nil
  then show ?case by simp
next
  case (Cons c cs)
  from Cons.prems have kc: "kmsThrottled sc c" and kcs: "list_all (kmsThrottled sc) cs"
    and m: "m < 36" "Suc m + length cs \<le> 36"
    and x: "int (Suc m) \<le> sint (MaxRetryCount (kclConfig sc))"
      "int (Suc m + length cs) \<le> sint (MaxRetryCount (kclConfig sc))"
    by simp_all
  obtain pre st1 where i: "iteration conv sc st c =
             (pre @ [Sleep Backoff (kmsBackoff conv (of_nat (Suc m)))], Continue st1)"
    and p: "sleeps Backoff pre = []" and r1: "retriedErrors st1 = of_nat (Suc m)"
    using iteration_kmsThrottled [OF kc Cons.prems(2) m(1) x(1), of conv] by blast
  obtain evs st2 where l: "loop conv sc st1 cs = (evs, Continue st2)"
    and r2: "retriedErrors st2 = of_nat (Suc m + length cs)"
    and b: "sleeps Backoff evs = map (\<lambda>k. 100000000 * 2 ^ k) [Suc (Suc m) ..< Suc (Suc m + length cs)]"
    and la: "cs = [] \<or> last evs = Sleep Backoff (kmsBackoff conv (of_nat (Suc m + length cs)))"
    using Cons.IH [OF kcs r1 m(2) x(2)] by blast
  have s: "sint (kmsBackoff conv (of_nat (Suc m))) = 100000000 * 2 ^ Suc m"
    using m(1) by (intro kmsBackoff_exact) simp_all
  let ?evs = "(pre @ [Sleep Backoff (kmsBackoff conv (of_nat (Suc m)))]) @ evs"
  have 1: "loop conv sc st (c # cs) = (?evs, Continue st2)"
    using i l by simp
  have 2: "retriedErrors st2 = of_nat (m + length (c # cs))"
    using r2 by simp
  have u: "[Suc m ..< Suc (m + length (c # cs))]
             = Suc m # [Suc (Suc m) ..< Suc (Suc m + length cs)]"
  proof -
    have "Suc m < Suc (m + length (c # cs))" by simp
    from upt_conv_Cons [OF this] show ?thesis by (simp del: upt_Suc)
  qed
  have 3: "sleeps Backoff ?evs = map (\<lambda>k. 100000000 * 2 ^ k) [Suc m ..< Suc (m + length (c # cs))]"
    unfolding u using p b s by (simp add: sleeps_append del: upt_Suc)
  have 4: "last ?evs = Sleep Backoff (kmsBackoff conv (of_nat (m + length (c # cs))))"
  proof (cases "cs = []")
    case True
    with l have "evs = []" by simp
    with True show ?thesis by simp
  next
    case False
    have "length (sleeps Backoff evs) = length cs" unfolding b by (simp del: upt_Suc)
    with False have "sleeps Backoff evs \<noteq> []" by auto
    then have "evs \<noteq> []" by auto
    with la False show ?thesis by simp
  qed
  from 1 2 3 4 show ?case by blast
qed

text \<open>
  Claim C3, as amended. When the fetch fails with a KMS throttling error in \<open>N\<close>
  passes in a row, the first of them with the retry counter at zero (at the start, or after
  a successful fetch), with \<open>N\<close> from 1 to 36 and within the retry budget, the loop
  goes on, its backoff sleeps are 100 ms times \<open>2^1\<close>, ..., \<open>2^N\<close> in this order, and
  the last event, before the attempt \<open>N + 1\<close>, is the sleep of 100 ms times \<open>2^N\<close>
  (in nanoseconds: \<open>100000000 * 2^N\<close>).
\<close>

theorem kms_backoff_doubles:
  assumes "list_all (kmsThrottled sc) cs" and "retriedErrors st = 0"
    and "1 \<le> length cs" and "length cs \<le> 36"
    and "int (length cs) \<le> sint (MaxRetryCount (kclConfig sc))"
  shows "\<exists>evs st1 d. loop conv sc st cs = (evs, Continue st1)
           \<and> retriedErrors st1 = of_nat (length cs)
           \<and> sleeps Backoff evs = map (\<lambda>k. 100000000 * 2 ^ k) [1 ..< Suc (length cs)]
           \<and> last evs = Sleep Backoff d \<and> sint d = 100000000 * 2 ^ length cs"
proof -
  have z: "retriedErrors st = of_nat 0" using assms(2) by simp
  obtain evs st1 where l: "loop conv sc st cs = (evs, Continue st1)"
    and r: "retriedErrors st1 = of_nat (0 + length cs)"
    and b: "sleeps Backoff evs = map (\<lambda>k. 100000000 * 2 ^ k) [Suc 0 ..< Suc (0 + length cs)]"
    and la: "cs = [] \<or> last evs = Sleep Backoff (kmsBackoff conv (of_nat (0 + length cs)))"
    using loop_kmsThrottled [OF assms(1) z, of conv] assms(4,5) by auto
  have ne: "cs \<noteq> []" using assms(3) by auto
  have s: "sint (kmsBackoff conv (of_nat (length cs))) = 100000000 * 2 ^ length cs"
    using assms(3,4) by (rule kmsBackoff_exact)
  from l r b la ne s show ?thesis by (simp del: upt_Suc)
qed

lemma example_two_kms_failures:
  "loop 0 example_consumer (initialState (Some ''iterator-0''))
     [throttled_cycle (KMSThrottlingException ''first''),
      throttled_cycle (KMSThrottlingException ''second'')] =
     ([GetRecords \<lparr> Limit = 10000, ShardIterator = Some ''iterator-0'' \<rparr>,
       Sleep Backoff 200000000,
       GetRecords \<lparr> Limit = 10000, ShardIterator = Some ''iterator-0'' \<rparr>,
       Sleep Backoff 400000000],
      Continue \<lparr> shardIterator = Some ''iterator-0'', retriedErrors = 2,
        transactionNum = 0, firstTransactionTime = 0 \<rparr>)"
  by (simp add: model_defs example_defs)

theorem kms_backoff_doubles_witness:
  "list_all (kmsThrottled example_consumer)
     [throttled_cycle (KMSThrottlingException ''first''),
      throttled_cycle (KMSThrottlingException ''second'')]
   \<and> retriedErrors (initialState (Some ''iterator-0'')) = 0
   \<and> int 2 \<le> sint (MaxRetryCount (kclConfig example_consumer))
   \<and> sleeps Backoff (fst (loop 0 example_consumer (initialState (Some ''iterator-0''))
        [throttled_cycle (KMSThrottlingException ''first''),
         throttled_cycle (KMSThrottlingException ''second'')]))
       = [200000000, 400000000]
   \<and> last (fst (loop 0 example_consumer (initialState (Some ''iterator-0''))
        [throttled_cycle (KMSThrottlingException ''first''),
         throttled_cycle (KMSThrottlingException ''second'')]))
       = Sleep Backoff 400000000
   \<and> sint (400000000 :: 64 word) = 100000000 * 2 ^ 2"
proof -
  let ?cs = "[throttled_cycle (KMSThrottlingException ''first''),
      throttled_cycle (KMSThrottlingException ''second'')]"
  have h: "leaseHeld example_consumer (throttled_cycle err)" for err
    by (simp add: leaseHeld_def model_defs example_defs)
  have k: "list_all (kmsThrottled example_consumer) ?cs"
    by (simp add: kmsThrottled_def h) (simp add: example_defs)
  have z: "retriedErrors (initialState (Some ''iterator-0'')) = 0"
    by (simp add: initialState_def)
  have m: "int (length ?cs) \<le> sint (MaxRetryCount (kclConfig example_consumer))"
    by (simp add: example_defs)
  have "\<exists>evs st1 d. loop 0 example_consumer (initialState (Some ''iterator-0'')) ?cs
             = (evs, Continue st1)
           \<and> retriedErrors st1 = of_nat (length ?cs)
           \<and> sleeps Backoff evs = map (\<lambda>k. 100000000 * 2 ^ k) [1 ..< Suc (length ?cs)]
           \<and> last evs = Sleep Backoff d \<and> sint d = 100000000 * 2 ^ length ?cs"
    by (rule kms_backoff_doubles [OF k z _ _ m]) simp_all
  then show ?thesis
    using k z m example_two_kms_failures by simp
qed

text \<open>
  The claim as it is written, for every \<open>N\<close>, fails at \<open>N = 37\<close>: with a retry budget of
  40, the 37th KMS throttling error in a row is within the budget, and the backoff is
  \<open>2^37 * 100\<close> milliseconds, whose count of nanoseconds, \<open>2^37 * 10^8\<close>, is greater than
  the greatest \<^verbatim>\<open>int64\<close>. The product wraps around to a negative duration, with which
  \<^verbatim>\<open>time.Sleep\<close> returns at once.
\<close>

theorem kms_backoff_counterexample:
  "list_all (kmsThrottled patient_consumer)
     (replicate 37 (throttled_cycle (KMSThrottlingException ''kms'')))
   \<and> retriedErrors (initialState (Some ''iterator-0'')) = 0
   \<and> int 37 \<le> sint (MaxRetryCount (kclConfig patient_consumer))
   \<and> last (fst (loop 0 patient_consumer (initialState (Some ''iterator-0''))
        (replicate 37 (throttled_cycle (KMSThrottlingException ''kms'')))))
       = Sleep Backoff (- 4702848726509551616)
   \<and> sleeps Backoff (fst (loop 0 patient_consumer (initialState (Some ''iterator-0''))
        (replicate 37 (throttled_cycle (KMSThrottlingException ''kms''))))) ! 36
       = - 4702848726509551616
   \<and> (- 4702848726509551616 :: int) \<noteq> 100000000 * 2 ^ 37"
  by code_simp

subsection \<open>The cooldown after a provisioned-throughput-exceeded error\<close>

lemma cooldown_remaining:
  assumes "0 \<le> sint w" and "sint w < 1000000000"
  shows "sint (Second - w) = 1000000000 - sint w"
proof -
  have "Second - w = word_of_int (1000000000 - sint w)"
    by (simp add: Second_def)
  moreover have "sint (word_of_int (1000000000 - sint w) :: 64 word) = 1000000000 - sint w"
    using assms by (intro sint_word64_of_int) linarith+
  ultimately show ?thesis by simp
qed

lemma fetchFailed_throughput:
  assumes "as_ProvisionedThroughputExceeded err"
    and "\<not> MaxRetryCount (kclConfig sc) <s retriedErrors st + 1"
    and "getRecordsTransactionTime c \<le> nowAfterError c"
  shows "fetchFailed conv sc st c err =
           (if nowAfterError c - getRecordsTransactionTime c < 1000000000
            then [Sleep Cooldown
                    (Second - time_Since (nowAfterError c) (getRecordsTransactionTime c))]
            else [],
            Continue (st\<lparr>retriedErrors := retriedErrors st + 1\<rparr>))
         \<and> (nowAfterError c - getRecordsTransactionTime c < 1000000000 \<longrightarrow>
              sint (Second - time_Since (nowAfterError c) (getRecordsTransactionTime c))
                = 1000000000 - (nowAfterError c - getRecordsTransactionTime c))"
proof -
  let ?e = "nowAfterError c - getRecordsTransactionTime c"
  let ?w = "time_Since (nowAfterError c) (getRecordsTransactionTime c)"
  have e: "0 \<le> ?e" using assms(3) by simp
  have w: "sint ?w = min ?e 9223372036854775807"
    using e by (rule time_Since_elapsed)
  have lt: "?w <s Second \<longleftrightarrow> ?e < 1000000000"
    using w by (auto simp add: word_sless_alt Second_def min_def split: if_splits)
  have f: "fetchFailed conv sc st c err =
           (if ?e < 1000000000 then [Sleep Cooldown (Second - ?w)] else [],
            Continue (st\<lparr>retriedErrors := retriedErrors st + 1\<rparr>))"
    using assms(1,2) lt by (simp add: fetchFailed_def Let_def)
  have "sint (Second - ?w) = 1000000000 - ?e" if "?e < 1000000000"
  proof -
    have "sint ?w = ?e" using w that by simp
    then show ?thesis using cooldown_remaining [of ?w] e that by simp
  qed
  with f show ?thesis by simp
qed

text \<open>
  Claim C2, as amended. When a fetch fails with a provisioned-throughput-exceeded error and
  the retry budget is not used up, the pass ends with the retry counter one higher and the
  loop goes on. The cooldown is measured from \<^verbatim>\<open>getRecordsTransactionTime\<close>, the clock
  reading taken right after the failed call has returned: with \<open>elapsed\<close> the time from that
  reading to the reading of \<^verbatim>\<open>time.Since\<close> (the clock not running backwards), the pass
  sleeps once, as its last action, for one second less \<open>elapsed\<close> if \<open>elapsed\<close> is less
  than one second, and it does not sleep if one second or more has elapsed.
\<close>

theorem throughput_cooldown:
  assumes "throughputThrottled sc c"
    and "\<not> MaxRetryCount (kclConfig sc) <s retriedErrors st + 1"
    and "getRecordsTransactionTime c \<le> nowAfterError c"
  shows "\<exists>pre st1. snd (iteration conv sc st c) = Continue st1
           \<and> retriedErrors st1 = retriedErrors st + 1
           \<and> sleeps Cooldown pre = []
           \<and> (if nowAfterError c - getRecordsTransactionTime c < 1000000000
               then (\<exists>d. fst (iteration conv sc st c) = pre @ [Sleep Cooldown d]
                       \<and> sint d = 1000000000 - (nowAfterError c - getRecordsTransactionTime c))
               else fst (iteration conv sc st c) = pre)"
proof -
  from assms(1) obtain err where e: "getRecordsResult c = Inl err"
    and k: "as_ProvisionedThroughputExceeded err" and h: "leaseHeld sc c"
    by (cases "getRecordsResult c") (simp_all add: throughputThrottled_def)
  let ?st = "snd (rateLimit st c)"
  let ?pre = "fst (refreshLease sc c) @ fst (rateLimit st c)
                @ [GetRecords \<lparr> Limit = int32 (MaxRecords (kclConfig sc)),
                                  ShardIterator = shardIterator st \<rparr>]"
  let ?d = "Second - time_Since (nowAfterError c) (getRecordsTransactionTime c)"
  have n: "\<not> MaxRetryCount (kclConfig sc) <s retriedErrors ?st + 1"
    using assms(2) by (simp add: rateLimit_retriedErrors)
  note f = fetchFailed_throughput [OF k n assms(3), of conv]
  have i: "iteration conv sc st c =
          (?pre @ (if nowAfterError c - getRecordsTransactionTime c < 1000000000
                   then [Sleep Cooldown ?d] else []),
           Continue (?st\<lparr>retriedErrors := retriedErrors ?st + 1\<rparr>))"
    using iteration_fetch [OF h, of conv st] e f by simp
  have p: "sleeps Cooldown ?pre = []"
    by (simp add: sleeps_append refreshLease_sleeps rateLimit_sleeps_other)
  have r: "retriedErrors (?st\<lparr>retriedErrors := retriedErrors ?st + 1\<rparr>) = retriedErrors st + 1"
    by (simp add: rateLimit_retriedErrors)
  show ?thesis
  proof (cases "nowAfterError c - getRecordsTransactionTime c < 1000000000")
    case True
    with f have "sint ?d = 1000000000 - (nowAfterError c - getRecordsTransactionTime c)"
      by simp
    with i p r True show ?thesis
      by (intro exI [of _ ?pre] exI [of _ "?st\<lparr>retriedErrors := retriedErrors ?st + 1\<rparr>"]) simp
  next
    case False
    with i p r show ?thesis
      by (intro exI [of _ ?pre] exI [of _ "?st\<lparr>retriedErrors := retriedErrors ?st + 1\<rparr>"]) simp
  qed
qed

lemma example_slow_throttled_pass:
  "iteration 0 example_consumer (initialState (Some ''iterator-0'')) (slow_throttled_cycle 400000000) =
     ([GetRecords \<lparr> Limit = 10000, ShardIterator = Some ''iterator-0'' \<rparr>,
       Sleep Cooldown 1000000000],
      Continue \<lparr> shardIterator = Some ''iterator-0'', retriedErrors = 1,
        transactionNum = 0, firstTransactionTime = 0 \<rparr>)"
  by (simp add: model_defs example_defs slow_throttled_cycle_def)

theorem throughput_cooldown_witness:
  "throughputThrottled example_consumer (slow_throttled_cycle 400000000)
   \<and> \<not> MaxRetryCount (kclConfig example_consumer)
          <s retriedErrors (initialState (Some ''iterator-0'')) + 1
   \<and> getRecordsTransactionTime (slow_throttled_cycle 400000000)
        \<le> nowAfterError (slow_throttled_cycle 400000000)
   \<and> (\<exists>pre st1. snd (iteration 0 example_consumer (initialState (Some ''iterator-0''))
                     (slow_throttled_cycle 400000000)) = Continue st1
          \<and> retriedErrors st1 = 1
          \<and> sleeps Cooldown pre = []
          \<and> (\<exists>d. fst (iteration 0 example_consumer (initialState (Some ''iterator-0''))
                      (slow_throttled_cycle 400000000)) = pre @ [Sleep Cooldown d]
                 \<and> sint d = 1000000000))"
proof -
  let ?c = "slow_throttled_cycle 400000000"
  have h: "throughputThrottled example_consumer ?c"
    by (simp add: throughputThrottled_def leaseHeld_def model_defs example_defs slow_throttled_cycle_def)
  have b: "\<not> MaxRetryCount (kclConfig example_consumer)
          <s retriedErrors (initialState (Some ''iterator-0'')) + 1"
    by (simp add: model_defs example_defs slow_throttled_cycle_def)
  have t: "getRecordsTransactionTime ?c \<le> nowAfterError ?c"
    "nowAfterError ?c - getRecordsTransactionTime ?c = 0"
    by (simp_all add: example_defs slow_throttled_cycle_def)
  have z: "retriedErrors (initialState (Some ''iterator-0'')) + 1 = 1"
    by (simp add: initialState_def)
  show ?thesis
    using throughput_cooldown [OF h b t(1), of 0] h b t z by simp
qed

text \<open>
  The claim as it is written measures the second from the start of the failed call. A call
  that starts at the instant 0 and fails after 400 ms is followed by a sleep of a whole
  second, not of the 600 ms that remain of a second since the start of the call; and a call
  that fails after one second and a half is followed by a sleep of a whole second as well,
  not by no sleep.
\<close>

theorem throughput_cooldown_counterexample:
  "throughputThrottled example_consumer (slow_throttled_cycle 400000000)
   \<and> getRecordsStartTime (slow_throttled_cycle 400000000) = 0
   \<and> nowAfterError (slow_throttled_cycle 400000000) = 400000000
   \<and> sleeps Cooldown (fst (iteration 0 example_consumer (initialState (Some ''iterator-0''))
        (slow_throttled_cycle 400000000))) = [1000000000]
   \<and> (1000000000 :: int) \<noteq> 1000000000 - (400000000 - 0)
   \<and> throughputThrottled example_consumer (slow_throttled_cycle 1500000000)
   \<and> getRecordsStartTime (slow_throttled_cycle 1500000000) = 0
   \<and> nowAfterError (slow_throttled_cycle 1500000000) = 1500000000
   \<and> sleeps Cooldown (fst (iteration 0 example_consumer (initialState (Some ''iterator-0''))
        (slow_throttled_cycle 1500000000))) = [1000000000]"
  by (simp add: throughputThrottled_def leaseHeld_def model_defs example_defs slow_throttled_cycle_def)

subsection \<open>Idle pacing\<close>

lemma idlePacing_sleeps:
  "sleeps Idle (idlePacing sc getResp) =
     (if Records getResp = []
         \<and> ToInt64 (MillisBehindLatest getResp) <s IdleTimeBetweenReadsInMillis (kclConfig sc)
      then [sint (idleInterval sc)] else [])"
  by (simp add: idlePacing_def idleInterval_def)

lemma idleInterval_millis:
  assumes "- 9223372036854 \<le> sint (IdleTimeBetweenReadsInMillis (kclConfig sc))"
    and "sint (IdleTimeBetweenReadsInMillis (kclConfig sc)) \<le> 9223372036854"
  shows "sint (idleInterval sc) = sint (IdleTimeBetweenReadsInMillis (kclConfig sc)) * 1000000"
proof -
  let ?i = "IdleTimeBetweenReadsInMillis (kclConfig sc)"
  have "idleInterval sc = word_of_int (sint ?i * 1000000)"
    by (simp add: idleInterval_def Millisecond_def)
  moreover have "sint (word_of_int (sint ?i * 1000000) :: 64 word) = sint ?i * 1000000"
    using assms by (intro sint_word64_of_int) linarith+
  ultimately show ?thesis by simp
qed

lemma iteration_sleeps_Idle:
  "sleeps Idle (fst (iteration conv sc st c)) = (if idles sc c then [sint (idleInterval sc)] else [])"
proof (cases "leaseHeld sc c")
  case False
  then show ?thesis
    using iteration_lease_not_held [OF False, of conv st] by (simp add: idles_def)
next
  case True
  note i = iteration_fetch [OF True, of conv st]
  have p: "sleeps Idle (fst (refreshLease sc c)) = []" "sleeps Idle (fst (rateLimit st c)) = []"
    by (simp_all add: refreshLease_sleeps rateLimit_sleeps_other)
  show ?thesis
  proof (cases "getRecordsResult c")
    case (Inl err)
    with i p True show ?thesis
      by (simp add: sleeps_append fetchFailed_sleeps_Idle idles_def)
  next
    case (Inr getResp)
    with i p True show ?thesis
      by (simp add: sleeps_append fetchSucceeded_events idlePacing_sleeps idles_def)
  qed
qed


lemma iteration_idles_events:
  assumes "idles sc c"
  shows "\<exists>pre getResp. getRecordsResult c = Inr getResp
           \<and> fst (iteration conv sc st c) =
               pre @ [ProcessRecords (getRecordsStartTime c) (Records getResp)
                        (MillisBehindLatest getResp),
                      Sleep Idle (idleInterval sc), PollStop]
                 @ (if stopSignalled c then [Shutdown REQUESTED] else [])"
proof -
  from assms obtain getResp where r: "getRecordsResult c = Inr getResp"
    and n: "NextShardIterator getResp \<noteq> None" and e: "Records getResp = []"
    and l: "ToInt64 (MillisBehindLatest getResp) <s IdleTimeBetweenReadsInMillis (kclConfig sc)"
    and h: "leaseHeld sc c"
    by (cases "getRecordsResult c") (simp_all add: idles_def)
  let ?pre = "fst (refreshLease sc c) @ fst (rateLimit st c)
                @ [GetRecords \<lparr> Limit = int32 (MaxRecords (kclConfig sc)),
                                  ShardIterator = shardIterator st \<rparr>]"
  have "fst (iteration conv sc st c) =
               ?pre @ [ProcessRecords (getRecordsStartTime c) (Records getResp)
                        (MillisBehindLatest getResp),
                      Sleep Idle (idleInterval sc), PollStop]
                 @ (if stopSignalled c then [Shutdown REQUESTED] else [])"
    using iteration_fetch [OF h, of conv st] r n e l
    by (simp add: fetchSucceeded_events idlePacing_def idleInterval_def)
  with r show ?thesis by blast
qed

text \<open>
  Claim C9, as amended. A pass sleeps for idle pacing exactly when its fetch succeeds, the
  response carries a continuation iterator (the shard is not closed), the batch has no
  records and the reported milliseconds behind latest are less than
  \<^verbatim>\<open>IdleTimeBetweenReadsInMillis\<close>. It then sleeps exactly once, for the duration
  \<^verbatim>\<open>IdleTimeBetweenReadsInMillis * time.Millisecond\<close> (that many milliseconds, as long
  as the product fits a duration), after the batch has been handed over and before the stop
  signal is polled, hence before the next fetch. In every other pass there is no idle sleep;
  in particular there is none when the batch has a record, whatever the reported lag.
\<close>

theorem idle_pacing:
  "sleeps Idle (fst (iteration conv sc st c))
     = (if idles sc c then [sint (idleInterval sc)] else [])
   \<and> (idles sc c \<longrightarrow>
        (\<exists>pre getResp. getRecordsResult c = Inr getResp
           \<and> fst (iteration conv sc st c) =
               pre @ [ProcessRecords (getRecordsStartTime c) (Records getResp)
                        (MillisBehindLatest getResp),
                      Sleep Idle (idleInterval sc), PollStop]
                 @ (if stopSignalled c then [Shutdown REQUESTED] else [])))
   \<and> ((\<exists>getResp. getRecordsResult c = Inr getResp \<and> Records getResp \<noteq> []) \<longrightarrow>
        sleeps Idle (fst (iteration conv sc st c)) = [])
   \<and> (- 9223372036854 \<le> sint (IdleTimeBetweenReadsInMillis (kclConfig sc))
        \<and> sint (IdleTimeBetweenReadsInMillis (kclConfig sc)) \<le> 9223372036854 \<longrightarrow>
        sint (idleInterval sc) = sint (IdleTimeBetweenReadsInMillis (kclConfig sc)) * 1000000)"
proof (intro conjI impI)
  show "sleeps Idle (fst (iteration conv sc st c))
     = (if idles sc c then [sint (idleInterval sc)] else [])"
    by (rule iteration_sleeps_Idle)
next
  assume "idles sc c"
  then show "\<exists>pre getResp. getRecordsResult c = Inr getResp
           \<and> fst (iteration conv sc st c) =
               pre @ [ProcessRecords (getRecordsStartTime c) (Records getResp)
                        (MillisBehindLatest getResp),
                      Sleep Idle (idleInterval sc), PollStop]
                 @ (if stopSignalled c then [Shutdown REQUESTED] else [])"
    by (rule iteration_idles_events)
next
  assume "\<exists>getResp. getRecordsResult c = Inr getResp \<and> Records getResp \<noteq> []"
  then have "\<not> idles sc c" by (auto simp add: idles_def)
  then show "sleeps Idle (fst (iteration conv sc st c)) = []"
    by (simp add: iteration_sleeps_Idle)
next
  assume "- 9223372036854 \<le> sint (IdleTimeBetweenReadsInMillis (kclConfig sc))
        \<and> sint (IdleTimeBetweenReadsInMillis (kclConfig sc)) \<le> 9223372036854"
  then show "sint (idleInterval sc) = sint (IdleTimeBetweenReadsInMillis (kclConfig sc)) * 1000000"
    by (intro idleInterval_millis) simp_all
qed

theorem idle_pacing_witness:
  "idles example_consumer (example_cycle 0 (Inr empty_response))
   \<and> sleeps Idle (fst (iteration 0 example_consumer (initialState (Some ''iterator-0''))
        (example_cycle 0 (Inr empty_response)))) = [1000000000]
   \<and> getRecordsResult (example_cycle 0 (Inr open_response)) = Inr open_response
   \<and> Records open_response \<noteq> []
   \<and> sleeps Idle (fst (iteration 0 example_consumer (initialState (Some ''iterator-0''))
        (example_cycle 0 (Inr open_response)))) = []
   \<and> sint (IdleTimeBetweenReadsInMillis (kclConfig example_consumer)) = 1000
   \<and> sint (idleInterval example_consumer) = 1000 * 1000000"
proof -
  have i: "idles example_consumer (example_cycle 0 (Inr empty_response))"
    by (simp add: idles_def leaseHeld_def model_defs example_defs empty_response_def)
  have o: "getRecordsResult (example_cycle 0 (Inr open_response)) = Inr open_response"
    "Records open_response \<noteq> []"
    by (simp_all add: example_defs)
  have m: "sint (IdleTimeBetweenReadsInMillis (kclConfig example_consumer)) = 1000"
    by (simp add: example_defs)
  have v: "sint (idleInterval example_consumer) = 1000000000"
    by (simp add: idleInterval_def Millisecond_def example_defs)
  show ?thesis
    using idle_pacing [of 0 example_consumer "initialState (Some ''iterator-0'')"
        "example_cycle 0 (Inr empty_response)"]
      idle_pacing [of 0 example_consumer "initialState (Some ''iterator-0'')"
        "example_cycle 0 (Inr open_response)"]
      i o m v
    by auto
qed

text \<open>
  The claim as it is written leaves the closed shard out: the last fetch of a closed shard
  that has been read to its end succeeds with no records, no lag and no continuation
  iterator, and the pass returns without an idle sleep.
\<close>

theorem idle_pacing_counterexample:
  "leaseHeld example_consumer (example_cycle 0 (Inr empty_closed_response))
   \<and> getRecordsResult (example_cycle 0 (Inr empty_closed_response)) = Inr empty_closed_response
   \<and> length (Records empty_closed_response) = 0
   \<and> ToInt64 (MillisBehindLatest empty_closed_response)
        <s IdleTimeBetweenReadsInMillis (kclConfig example_consumer)
   \<and> iteration 0 example_consumer (initialState (Some ''iterator-0''))
        (example_cycle 0 (Inr empty_closed_response)) =
       ([GetRecords \<lparr> Limit = 10000, ShardIterator = Some ''iterator-0'' \<rparr>,
         ProcessRecords 0 [] (Some 0), Shutdown TERMINATE],
        Return None)
   \<and> sleeps Idle (fst (iteration 0 example_consumer (initialState (Some ''iterator-0''))
        (example_cycle 0 (Inr empty_closed_response)))) = []"
  by (simp add: leaseHeld_def model_defs example_defs empty_closed_response_def)

subsection \<open>The stop signal\<close>

lemma refreshLease_no_poll: "filter is_PollStop (fst (refreshLease sc c)) = []"
  by (simp add: refreshLease_def split: option.split)

lemma rateLimit_no_poll: "filter is_PollStop (fst (rateLimit st c)) = []"
  by (simp add: rateLimit_def Let_def)

lemma fetchFailed_quiet:
  "filter is_PollStop (fst (fetchFailed conv sc st c err)) = []"
  "filter is_Shutdown (fst (fetchFailed conv sc st c err)) = []"
  by (simp_all add: fetchFailed_def Let_def)

lemma iteration_ignores_stop:
  assumes "getRecordsResult c = Inl err"
  shows "iteration conv sc st (c\<lparr>stopSignalled := b\<rparr>) = iteration conv sc st c"
proof -
  have 1: "refreshLease sc (c\<lparr>stopSignalled := b\<rparr>) = refreshLease sc c"
    by (simp add: refreshLease_def renewalDue_def)
  have 2: "rateLimit st (c\<lparr>stopSignalled := b\<rparr>) = rateLimit st c"
    by (simp add: rateLimit_def)
  have 3: "fetchFailed conv sc s (c\<lparr>stopSignalled := b\<rparr>) err = fetchFailed conv sc s c err" for s
    by (simp add: fetchFailed_def)
  have 4: "getRecordsResult (c\<lparr>stopSignalled := b\<rparr>) = Inl err"
    using assms by simp
  show ?thesis
    using assms
    by (simp add: iteration_def 1 2 3 4 Let_def split: prod.split option.split)
qed

lemma iteration_failing_quiet:
  assumes "failsRetriably sc c"
  shows "filter is_PollStop (fst (iteration conv sc st c)) = []"
    and "filter is_Shutdown (fst (iteration conv sc st c)) = []"
    and "sleeps Idle (fst (iteration conv sc st c)) = []"
    and "iteration conv sc st (c\<lparr>stopSignalled := b\<rparr>) = iteration conv sc st c"
proof -
  from assms obtain err where e: "getRecordsResult c = Inl err" and h: "leaseHeld sc c"
    by (cases "getRecordsResult c") (simp_all add: failsRetriably_def)
  note i = iteration_fetch [OF h, of conv st]
  show "filter is_PollStop (fst (iteration conv sc st c)) = []"
    using i e by (simp add: refreshLease_no_poll rateLimit_no_poll fetchFailed_quiet)
  show "filter is_Shutdown (fst (iteration conv sc st c)) = []"
    using i e by (simp add: refreshLease_events rateLimit_events fetchFailed_quiet)
  show "sleeps Idle (fst (iteration conv sc st c)) = []"
    using i e
    by (simp add: sleeps_append refreshLease_sleeps rateLimit_sleeps_other
        fetchFailed_sleeps_Idle)
  show "iteration conv sc st (c\<lparr>stopSignalled := b\<rparr>) = iteration conv sc st c"
    using e by (rule iteration_ignores_stop)
qed

lemma iteration_poll_after_delivery:
  assumes "filter is_PollStop (fst (iteration conv sc st c)) \<noteq> []"
  shows "\<exists>getResp pre post. getRecordsResult c = Inr getResp
           \<and> fst (iteration conv sc st c) =
               pre @ ProcessRecords (getRecordsStartTime c) (Records getResp)
                       (MillisBehindLatest getResp) # post
           \<and> filter is_PollStop pre = []"
proof (cases "leaseHeld sc c")
  case False
  from iteration_lease_not_held [OF False, of conv st] assms show ?thesis by simp
next
  case True
  note i = iteration_fetch [OF True, of conv st]
  show ?thesis
  proof (cases "getRecordsResult c")
    case (Inl err)
    with i assms show ?thesis
      by (simp add: refreshLease_no_poll rateLimit_no_poll fetchFailed_quiet)
  next
    case (Inr getResp)
    let ?pre = "fst (refreshLease sc c) @ fst (rateLimit st c)
                @ [GetRecords \<lparr> Limit = int32 (MaxRecords (kclConfig sc)),
                                  ShardIterator = shardIterator st \<rparr>]"
    obtain post where "fst (fetchSucceeded sc (snd (rateLimit st c)) c getResp) =
        ProcessRecords (getRecordsStartTime c) (Records getResp)
                       (MillisBehindLatest getResp) # post"
      by (simp add: fetchSucceeded_events)
    with i Inr have "fst (iteration conv sc st c) =
        ?pre @ ProcessRecords (getRecordsStartTime c) (Records getResp)
                       (MillisBehindLatest getResp) # post"
      by simp
    moreover have "filter is_PollStop ?pre = []"
      by (simp add: refreshLease_no_poll rateLimit_no_poll)
    ultimately show ?thesis using Inr by blast
  qed
qed

lemma failsRetriably_stop [simp]:
  "failsRetriably sc (c\<lparr>stopSignalled := b\<rparr>) = failsRetriably sc c"
  by (simp add: failsRetriably_def leaseHeld_def renewalDue_def)

lemma loop_failing_quiet:
  assumes "list_all (failsRetriably sc) cs"
  shows "filter is_PollStop (fst (loop conv sc st cs)) = []
       \<and> filter is_Shutdown (fst (loop conv sc st cs)) = []
       \<and> loop conv sc st (stopRaised cs) = loop conv sc st cs"
  using assms
proof (induction cs arbitrary: st)
  case Nil
  show ?case by (simp add: stopRaised_def)
next
  case (Cons c cs)
  from Cons.prems have fc: "failsRetriably sc c" and fcs: "list_all (failsRetriably sc) cs"
    by simp_all
  obtain evs out where i: "iteration conv sc st c = (evs, out)"
    by (cases "iteration conv sc st c")
  have q: "filter is_PollStop evs = []" "filter is_Shutdown evs = []"
    using iteration_failing_quiet(1,2) [OF fc, of conv st] i by simp_all
  have s: "iteration conv sc st (c\<lparr>stopSignalled := True\<rparr>) = (evs, out)"
    using iteration_failing_quiet(4) [OF fc, of conv st True] i by simp
  have r: "stopRaised (c # cs) = c\<lparr>stopSignalled := True\<rparr> # stopRaised cs"
    by (simp add: stopRaised_def)
  show ?case
  proof (cases out)
    case (Return x)
    with i q s r show ?thesis by simp
  next
    case (Continue st1)
    obtain evs1 out1 where l: "loop conv sc st1 cs = (evs1, out1)"
      by (cases "loop conv sc st1 cs")
    with Cons.IH [OF fcs, of st1]
    have "filter is_PollStop evs1 = []" "filter is_Shutdown evs1 = []"
      "loop conv sc st1 (stopRaised cs) = (evs1, out1)"
      by simp_all
    with i q s r l Continue show ?thesis by simp
  qed
qed

lemma getRecords_cycles_cong:
  assumes "\<And>it. loop conv sc (initialState it) cs = loop conv sc (initialState it) (cycles env)"
  shows "getRecords conv sc (env\<lparr>cycles := cs\<rparr>) = getRecords conv sc env"
proof -
  have g: "getShardIterator sc (env\<lparr>cycles := cs\<rparr>) = getShardIterator sc env"
    by (simp add: getShardIterator_def split: sum.split)
  have p: "pollShard conv sc (env\<lparr>cycles := cs\<rparr>) = pollShard conv sc env"
    using assms by (simp add: pollShard_def g split: prod.split sum.split outcome.split)
  have "getRecords_body conv sc (env\<lparr>cycles := cs\<rparr>) = getRecords_body conv sc env"
    by (simp add: getRecords_body_def p split: option.split)
  then show ?thesis by (simp add: getRecords_def)
qed

lemma getRecords_quiet:
  assumes "\<And>it. filter is_PollStop (fst (loop conv sc (initialState it) (cycles env))) = []"
    and "\<And>it. filter is_Shutdown (fst (loop conv sc (initialState it) (cycles env))) = []"
  shows "filter is_PollStop (fst (getRecords conv sc env)) = []"
    and "filter is_Shutdown (fst (getRecords conv sc env)) = []"
proof -
  obtain gs r where g: "getShardIterator sc env = (gs, r)" by (cases "getShardIterator sc env")
  have gq: "filter is_PollStop gs = []" "filter is_Shutdown gs = []"
    using g by (auto simp add: getShardIterator_def Let_def split: sum.splits)
  have p: "filter is_PollStop (fst (pollShard conv sc env)) = []
         \<and> filter is_Shutdown (fst (pollShard conv sc env)) = []"
  proof (cases r)
    case (Inl err)
    with g gq show ?thesis by (simp add: pollShard_def)
  next
    case (Inr it)
    obtain evs out where l: "loop conv sc (initialState it) (cycles env) = (evs, out)"
      by (cases "loop conv sc (initialState it) (cycles env)")
    have "filter is_PollStop evs = []" "filter is_Shutdown evs = []"
      using assms(1) [of it] assms(2) [of it] l by simp_all
    with g gq Inr l show ?thesis by (cases out) (simp_all add: pollShard_def)
  qed
  obtain evs res where ps: "pollShard conv sc env = (evs, res)" by (cases "pollShard conv sc env")
  with p have e: "filter is_PollStop evs = []" "filter is_Shutdown evs = []" by simp_all
  have b: "filter is_PollStop (fst (getRecords_body conv sc env)) = []
         \<and> filter is_Shutdown (fst (getRecords_body conv sc env)) = []"
    using ps e by (simp add: getRecords_body_def split: option.split)
  obtain evs1 res1 where gb: "getRecords_body conv sc env = (evs1, res1)"
    by (cases "getRecords_body conv sc env")
  with b have "filter is_PollStop evs1 = []" "filter is_Shutdown evs1 = []" by simp_all
  with gb show "filter is_PollStop (fst (getRecords conv sc env)) = []"
    and "filter is_Shutdown (fst (getRecords conv sc env)) = []"
    by (cases res1; simp add: getRecords_def)+
qed


text \<open>
  Claim C10. The stop channel is polled only at the end of a pass whose fetch has succeeded,
  after the batch has been handed to \<^verbatim>\<open>processRecords\<close>. A pass whose fetch fails with a
  retriable error, whether it retries or uses up the budget, polls no stop signal, sleeps no
  idle sleep, sends no shutdown notification, and does the same whether the stop signal is
  raised or not. So a call all of whose passes fail with retriable errors never polls the
  stop channel and never notifies the record processor, and it runs exactly as it does with
  the stop signal raised in every pass.
\<close>

theorem stop_polled_after_delivery:
  "(filter is_PollStop (fst (iteration conv sc st c)) \<noteq> [] \<longrightarrow>
      (\<exists>getResp pre post. getRecordsResult c = Inr getResp
         \<and> fst (iteration conv sc st c) =
             pre @ ProcessRecords (getRecordsStartTime c) (Records getResp)
                     (MillisBehindLatest getResp) # post
         \<and> filter is_PollStop pre = []))
   \<and> (failsRetriably sc c \<longrightarrow>
        filter is_PollStop (fst (iteration conv sc st c)) = []
        \<and> sleeps Idle (fst (iteration conv sc st c)) = []
        \<and> filter is_Shutdown (fst (iteration conv sc st c)) = []
        \<and> iteration conv sc st (c\<lparr>stopSignalled := True\<rparr>) = iteration conv sc st c)
   \<and> (list_all (failsRetriably sc) (cycles env) \<longrightarrow>
        filter is_PollStop (fst (getRecords conv sc env)) = []
        \<and> filter is_Shutdown (fst (getRecords conv sc env)) = []
        \<and> getRecords conv sc (env\<lparr>cycles := stopRaised (cycles env)\<rparr>) = getRecords conv sc env)"
proof (intro conjI impI)
  assume "filter is_PollStop (fst (iteration conv sc st c)) \<noteq> []"
  then show "\<exists>getResp pre post. getRecordsResult c = Inr getResp
         \<and> fst (iteration conv sc st c) =
             pre @ ProcessRecords (getRecordsStartTime c) (Records getResp)
                     (MillisBehindLatest getResp) # post
         \<and> filter is_PollStop pre = []"
    by (rule iteration_poll_after_delivery)
next
  assume f: "failsRetriably sc c"
  show "filter is_PollStop (fst (iteration conv sc st c)) = []"
    and "sleeps Idle (fst (iteration conv sc st c)) = []"
    and "filter is_Shutdown (fst (iteration conv sc st c)) = []"
    and "iteration conv sc st (c\<lparr>stopSignalled := True\<rparr>) = iteration conv sc st c"
    using iteration_failing_quiet [OF f, of conv st] by simp_all
next
  assume f: "list_all (failsRetriably sc) (cycles env)"
  note q = loop_failing_quiet [OF f, of conv]
  show "filter is_PollStop (fst (getRecords conv sc env)) = []"
    and "filter is_Shutdown (fst (getRecords conv sc env)) = []"
    using getRecords_quiet [of conv sc env] q by simp_all
  show "getRecords conv sc (env\<lparr>cycles := stopRaised (cycles env)\<rparr>) = getRecords conv sc env"
    using q by (intro getRecords_cycles_cong) simp
qed

lemma example_stopped_pass:
  "iteration 0 example_consumer (initialState (Some ''iterator-0'')) stopped_cycle =
     ([GetRecords \<lparr> Limit = 10000, ShardIterator = Some ''iterator-0'' \<rparr>,
       ProcessRecords 0 [example_record] (Some 0), PollStop, Shutdown REQUESTED],
      Return None)"
  by (simp add: model_defs example_defs)

lemma example_throttled_stopped_run:
  "getRecords 0 example_consumer
     (example_env (stopRaised
        [throttled_cycle (ProvisionedThroughputExceededException ''first''),
         throttled_cycle (KMSThrottlingException ''second''),
         throttled_cycle (ProvisionedThroughputExceededException ''third'')])) =
     ([WaitOnParentShard, GetStartingPosition,
       GetShardIterator \<lparr> in_ShardId = ''shard-1'', in_ShardIteratorType = TRIM_HORIZON,
         in_StartingSequenceNumber = None, in_Timestamp = None, in_StreamName = ''stream'' \<rparr>,
       Initialize ''shard-1'' ''TRIM_HORIZON'',
       GetRecords \<lparr> Limit = 10000, ShardIterator = Some ''iterator-0'' \<rparr>,
       Sleep Cooldown 1000000000,
       GetRecords \<lparr> Limit = 10000, ShardIterator = Some ''iterator-0'' \<rparr>,
       Sleep Backoff 400000000,
       GetRecords \<lparr> Limit = 10000, ShardIterator = Some ''iterator-0'' \<rparr>,
       ReleaseLease ''shard-1''],
      Returned (Some (ProvisionedThroughputExceededException ''third'')))"
  by (simp add: stopRaised_def model_defs example_defs)

theorem stop_polled_after_delivery_witness:
  "filter is_PollStop (fst (iteration 0 example_consumer
      (initialState (Some ''iterator-0'')) stopped_cycle)) = [PollStop]
   \<and> getRecordsResult stopped_cycle = Inr open_response
   \<and> failsRetriably example_consumer (throttled_cycle (KMSThrottlingException ''second''))
   \<and> list_all (failsRetriably example_consumer)
        (stopRaised
          [throttled_cycle (ProvisionedThroughputExceededException ''first''),
           throttled_cycle (KMSThrottlingException ''second''),
           throttled_cycle (ProvisionedThroughputExceededException ''third'')])
   \<and> list_all stopSignalled
        (stopRaised
          [throttled_cycle (ProvisionedThroughputExceededException ''first''),
           throttled_cycle (KMSThrottlingException ''second''),
           throttled_cycle (ProvisionedThroughputExceededException ''third'')])
   \<and> filter is_PollStop (fst (getRecords 0 example_consumer
        (example_env (stopRaised
          [throttled_cycle (ProvisionedThroughputExceededException ''first''),
           throttled_cycle (KMSThrottlingException ''second''),
           throttled_cycle (ProvisionedThroughputExceededException ''third'')])))) = []
   \<and> snd (getRecords 0 example_consumer
        (example_env (stopRaised
          [throttled_cycle (ProvisionedThroughputExceededException ''first''),
           throttled_cycle (KMSThrottlingException ''second''),
           throttled_cycle (ProvisionedThroughputExceededException ''third'')])))
       = Returned (Some (ProvisionedThroughputExceededException ''third''))"
proof -
  let ?cs = "[throttled_cycle (ProvisionedThroughputExceededException ''first''),
           throttled_cycle (KMSThrottlingException ''second''),
           throttled_cycle (ProvisionedThroughputExceededException ''third'')]"
  have h: "leaseHeld example_consumer (throttled_cycle err)" for err
    by (simp add: leaseHeld_def model_defs example_defs)
  have f: "failsRetriably example_consumer (throttled_cycle (KMSThrottlingException ''second''))"
    by (simp add: failsRetriably_def h) (simp add: retriable_def example_defs)
  have "list_all (failsRetriably example_consumer) ?cs"
    by (simp add: failsRetriably_def h) (simp add: retriable_def example_defs)
  then have fs: "list_all (failsRetriably example_consumer) (stopRaised ?cs)"
    by (simp add: stopRaised_def)
  have ss: "list_all stopSignalled (stopRaised ?cs)"
    by (simp add: stopRaised_def)
  have r: "getRecordsResult stopped_cycle = Inr open_response"
    by (simp add: example_defs)
  have n: "cycles (example_env cs) = cs" for cs
    by (simp add: example_defs)
  show ?thesis
    using stop_polled_after_delivery [of 0 example_consumer "initialState (Some ''iterator-0'')"
        stopped_cycle "example_env (stopRaised ?cs)"]
      example_stopped_pass example_throttled_stopped_run f fs ss r n
    by simp
qed

subsection \<open>The rate limiter\<close>

lemma rateLimit_below_cap:
  assumes "\<not> MaxReadTransactionsPerSecond <s transactionNum st"
  shows "rateLimit st c = ([], st)"
  using assms by (simp add: rateLimit_def)

lemma rateLimit_above_cap:
  assumes "MaxReadTransactionsPerSecond <s transactionNum st"
    and "firstTransactionTime st \<le> nowRateLimit c"
  shows "rateLimit st c =
           (if nowRateLimit c - firstTransactionTime st < 1000000000
            then [Sleep RateLimit (time_Since (nowRateLimit c) (firstTransactionTime st))]
            else [],
            st\<lparr>transactionNum := 0\<rparr>)"
    and "nowRateLimit c - firstTransactionTime st < 1000000000 \<Longrightarrow>
           sint (time_Since (nowRateLimit c) (firstTransactionTime st))
             = nowRateLimit c - firstTransactionTime st"
proof -
  let ?e = "nowRateLimit c - firstTransactionTime st"
  let ?w = "time_Since (nowRateLimit c) (firstTransactionTime st)"
  have e: "0 \<le> ?e" using assms(2) by simp
  have w: "sint ?w = min ?e 9223372036854775807"
    using e by (rule time_Since_elapsed)
  have lt: "?w <s Second \<longleftrightarrow> ?e < 1000000000"
    using w by (auto simp add: word_sless_alt Second_def min_def split: if_splits)
  show "rateLimit st c =
           (if ?e < 1000000000 then [Sleep RateLimit ?w] else [], st\<lparr>transactionNum := 0\<rparr>)"
    using assms(1) lt by (simp add: rateLimit_def Let_def)
  show "sint ?w = ?e" if "?e < 1000000000"
    using w that by simp
qed

text \<open>
  Claim C8 does not hold of the code. The limiter of lines 143 to 150 looks at the number of
  successful fetches since the window began and at the time since the first of them; it
  keeps no count of bytes. When the count is above five and less than a second has gone by,
  it sleeps for the time that has gone by, not for the rest of the second. In the run below
  six fetches succeed within 50 ms; before the seventh the limiter sleeps for 100 ms, the age
  of the window, and the seventh fetch has returned 210 ms after the first: seven read
  transactions within a quarter of a second, against the five per second of the comment at
  line 143.
\<close>

theorem rate_limiter_sleeps_elapsed_time:
  "sleeps RateLimit (fst (getRecords 0 example_consumer (example_env busy_cycles)))
     = [100000000]
   \<and> length (filter is_GetRecords
        (fst (getRecords 0 example_consumer (example_env busy_cycles)))) = 7
   \<and> map getRecordsTransactionTime busy_cycles
       = [0, 10000000, 20000000, 30000000, 40000000, 50000000, 210000000]
   \<and> snd (getRecords 0 example_consumer (example_env busy_cycles)) = Running"
  by code_simp

end
